theory Spec2Isabelle
  imports Main "HOL-Library.Sublist"
begin

section \<open>The index pattern of legacy/ui/public/index\_patterns/\_index\_pattern.js\<close>

text \<open>
  The class \<open>IndexPattern\<close> keeps a saved configuration object in step with a remote
  document store. Everything it reaches through an import that is not part of the
  sources (the saved-objects client, the fields fetcher, the mapping set-up, angular's
  JSON functions, the field-format registry and the field constructor) is a parameter of
  the model, gathered in the record \<open>services\<close>. Calls to the services that have an effect
  outside the pattern are logged, in the order the code makes them, in the \<open>trace\<close> of the
  \<open>world\<close>; the store itself is a state of any type \<open>'s\<close>.
\<close>

subsection \<open>Values, errors and fields\<close>

datatype json = JNull | JText string | JList "json list" | JObject "(string \<times> json) list"

text \<open>
  The errors the code throws itself (\<open>SavedObjectNotFound\<close>, \<open>DuplicateField\<close>), the one it
  tests for with \<open>instanceof\<close> (\<open>IndexPatternMissingIndices\<close>, with its message), the
  \<open>TypeError\<close> of reading a property of \<open>undefined\<close>, and any other rejection of a request,
  with the value of \<open>res.status\<close> if it has one.
\<close>

datatype error =
    SavedObjectNotFound string "string option" string
  | DuplicateField string
  | IndexPatternMissingIndices string
  | TypeError
  | RequestError "nat option" string

fun err_status :: "error \<Rightarrow> nat option" where
  "err_status (RequestError s m) = s"
| "err_status e = None"

text \<open>
  A promise that resolved, a promise that rejected, or a call that threw before it
  returned a promise. A throw inside a \<open>then\<close> callback rejects the promise of the chain.
\<close>

datatype 'a outcome = Resolved 'a | Rejected error | Thrown error

fun caught :: "'a outcome \<Rightarrow> 'a outcome" where
  "caught (Thrown e) = Rejected e"
| "caught r = r"

text \<open>A call made in a \<open>then\<close> callback whose promise the callback returns.\<close>

definition in_then :: "('a outcome \<times> 'b) option \<Rightarrow> ('a outcome \<times> 'b) option" where
  "in_then s = (case s of None \<Rightarrow> None | Some (r, x) \<Rightarrow> Some (caught r, x))"

text \<open>JavaScript's truthiness of a value that is a string, \<open>null\<close> or \<open>undefined\<close>.\<close>

definition truthy :: "string option \<Rightarrow> bool" where
  "truthy s = (s \<noteq> None \<and> s \<noteq> Some [])"

text \<open>
  A field. \<open>None\<close> is a property the object does not have: the code tests
  \<open>'aggregatable' in field\<close>, \<open>field.count || 0\<close> and \<open>scripted: true\<close>.
\<close>

record field =
  name :: string
  ftype :: "string option"
  count :: "int option"
  scripted :: "bool option"
  script :: "string option"
  lang :: "string option"
  aggregatable :: "bool option"
  searchable :: "bool option"
  readFromDocValues :: "bool option"

datatype fieldFormat = FieldFormat string json

subsection \<open>The mapping and the body\<close>

text \<open>
  The keys of \<open>mapping\<close>, in the order of the object literal. A body is the object that
  \<open>prepBody\<close> builds: its own keys in insertion order, each with a string or \<open>undefined\<close>
  (\<open>None\<close>). Reading a key the body does not have gives \<open>undefined\<close> as well.
\<close>

datatype key =
  Title | TimeFieldName | IntervalName | Fields | SourceFilters | FieldFormatMap | Type | TypeMeta

definition mapping_keys :: "key list" where
  "mapping_keys =
     [Title, TimeFieldName, IntervalName, Fields, SourceFilters, FieldFormatMap, Type, TypeMeta]"

type_synonym body = "(key \<times> string option) list"

definition keys :: "body \<Rightarrow> key list" where
  "keys b = map fst b"

definition at :: "body \<Rightarrow> key \<Rightarrow> string option" where
  "at b k = (case map_of b k of None \<Rightarrow> None | Some v \<Rightarrow> v)"

subsection \<open>The pattern\<close>

text \<open>
  \<open>id'\<close>, \<open>type'\<close> and \<open>fields'\<close> are the properties \<open>id\<close>, \<open>type\<close> and \<open>fields\<close>.
  \<open>watching\<close> says whether the object is a key of the weak map \<open>configWatchers\<close>.
\<close>

record indexPattern =
  id' :: "string option"
  version :: "string option"
  title :: "string option"
  timeFieldName :: "string option"
  intervalName :: "string option"
  fields' :: "field list option"
  sourceFilters :: "json option"
  fieldFormatMap :: "(string \<times> fieldFormat option) list option"
  type' :: "string option"
  typeMeta :: "json option"
  originalBody :: "body option"
  watching :: bool

text \<open>The saved object as the client returns it: the attributes are the stored strings.\<close>

record savedObject =
  so_id :: "string option"
  so_type :: string
  so_version :: "string option"
  attributes :: "(key \<times> string) list"

record response =
  source :: "(key \<times> string) list"
  found :: bool

subsection \<open>The world\<close>

datatype event =
    ConfigWatchAll
  | ConfigUnwatch
  | IdsClearCache
  | PatternCacheClear "string option"
  | Get string "string option"
  | Update string "string option" body "string option"
  | Delete string "string option"
  | FieldsFetch "string option"
  | AddDanger string
  | AddError error string

record 's world =
  remote :: 's
  trace :: "event list"

definition log :: "event \<Rightarrow> 's world \<Rightarrow> 's world" where
  "log ev w = w\<lparr>trace := trace w @ [ev]\<rparr>"

text \<open>
  The imports. The requests take the state of the store and return the settled promise
  with the new state. The shorthand \<open>'json'\<close> of the mapping is expanded by
  \<open>utils/mapping_setup\<close> into a pair of functions, one pair here for the field list and
  one for the other two JSON properties.
\<close>

record 's services =
  savedObjectsClient_get ::
    "string \<Rightarrow> string option \<Rightarrow> 's \<Rightarrow> (error + savedObject) \<times> 's"
  savedObjectsClient_update ::
    "string \<Rightarrow> string option \<Rightarrow> body \<Rightarrow> string option \<Rightarrow> 's
       \<Rightarrow> (error + string option \<times> string option) \<times> 's"
  savedObjectsClient_delete ::
    "string \<Rightarrow> string option \<Rightarrow> 's \<Rightarrow> (error + unit) \<times> 's"
  fieldsFetcher_fetch :: "indexPattern \<Rightarrow> 's \<Rightarrow> (error + field list) \<times> 's"
  fields_serialize :: "field list \<Rightarrow> string option"
  fields_deserialize :: "string option \<Rightarrow> field list option"
  json_serialize :: "json \<Rightarrow> string option"
  json_deserialize :: "string option \<Rightarrow> json option"
  angular_toJson :: "(string \<times> fieldFormat) list \<Rightarrow> string"
  angular_fromJson :: "string \<Rightarrow> (string \<times> string \<times> json) list"
  fieldformats_byId :: "string \<Rightarrow> (json \<Rightarrow> fieldFormat) option"
  new_Field :: "field \<Rightarrow> field"

definition type_name :: string where
  "type_name = ''index-pattern''"

definition MAX_ATTEMPTS_TO_RESOLVE_CONFLICTS :: nat where
  "MAX_ATTEMPTS_TO_RESOLVE_CONFLICTS = 3"

definition unableWriteLabel :: string where
  "unableWriteLabel = ''Unable to write index pattern! Refresh the page to get the most up to date changes for this index pattern.''"

definition fetchFieldErrorTitle :: string where
  "fetchFieldErrorTitle = ''Error fetching fields''"

definition not_found_link :: string where
  "not_found_link = ''#/management/kibana/index_pattern''"

subsection \<open>Serialising the field format map\<close>

text \<open>
  \<open>_.transform(map, serializeFieldFormatMap)\<close> keeps the entries whose format is truthy; a
  format is an object or \<open>undefined\<close>.
\<close>

definition serializeFieldFormatMap ::
  "(string \<times> fieldFormat option) list \<Rightarrow> (string \<times> fieldFormat) list" where
  "serializeFieldFormatMap m =
     List.map_filter (\<lambda>(fld, format). map_option (Pair fld) format) m"

definition fieldFormatMap_serialize ::
  "'s services \<Rightarrow> (string \<times> fieldFormat option) list option \<Rightarrow> string option" where
  "fieldFormatMap_serialize e m =
     (let serialized = serializeFieldFormatMap (case m of None \<Rightarrow> [] | Some x \<Rightarrow> x)
      in if serialized = [] then None else Some (angular_toJson e serialized))"

definition deserializeFieldFormatMap ::
  "'s services \<Rightarrow> string \<times> json \<Rightarrow> fieldFormat option" where
  "deserializeFieldFormatMap e m =
     (case fieldformats_byId e (fst m) of
        None \<Rightarrow> None
      | Some new_FieldFormat \<Rightarrow> Some (new_FieldFormat (snd m)))"

definition fieldFormatMap_deserialize ::
  "'s services \<Rightarrow> string option \<Rightarrow> (string \<times> fieldFormat option) list" where
  "fieldFormatMap_deserialize e m =
     map (\<lambda>(fld, mp). (fld, deserializeFieldFormatMap e mp))
       (angular_fromJson e (case m of None \<Rightarrow> ''{}'' | Some s \<Rightarrow> s))"

subsection \<open>The helpers of the provider\<close>

definition setId :: "indexPattern \<Rightarrow> string option \<Rightarrow> indexPattern" where
  "setId p i = p\<lparr>id' := i\<rparr>"

definition setVersion :: "indexPattern \<Rightarrow> string option \<Rightarrow> indexPattern" where
  "setVersion p v = p\<lparr>version := v\<rparr>"

definition watch :: "indexPattern \<Rightarrow> 's world \<Rightarrow> indexPattern \<times> 's world" where
  "watch p w =
     (if watching p then (p, w) else (p\<lparr>watching := True\<rparr>, log ConfigWatchAll w))"


definition initFields :: "'s services \<Rightarrow> indexPattern \<Rightarrow> field list option \<Rightarrow> indexPattern" where
  "initFields e p input =
     (let newValue =
        (case input of
           Some i \<Rightarrow> i
         | None \<Rightarrow> (case fields' p of Some oldValue \<Rightarrow> oldValue | None \<Rightarrow> []))
      in p\<lparr>fields' := Some (map (new_Field e) newValue)\<rparr>)"

definition isFieldRefreshRequired :: "indexPattern \<Rightarrow> bool" where
  "isFieldRefreshRequired p =
     (case fields' p of
        None \<Rightarrow> True
      | Some fs \<Rightarrow>
          list_all (\<lambda>f.
            let hasFieldCaps = (aggregatable f \<noteq> None \<and> searchable f \<noteq> None);
                hasDocValuesFlag = (readFromDocValues f \<noteq> None)
            in \<not> hasFieldCaps \<or> \<not> hasDocValuesFlag) fs)"

definition new_IndexPattern :: "string option \<Rightarrow> indexPattern" where
  "new_IndexPattern i =
     \<lparr>id' = i, version = None, title = None, timeFieldName = None, intervalName = None,
      fields' = None, sourceFilters = None, fieldFormatMap = None, type' = None,
      typeMeta = None, originalBody = None, watching = False\<rparr>"

definition getNonScriptedFields :: "indexPattern \<Rightarrow> field list" where
  "getNonScriptedFields p =
     (case fields' p of None \<Rightarrow> [] | Some fs \<Rightarrow> filter (\<lambda>f. scripted f = Some False) fs)"

definition getScriptedFields :: "indexPattern \<Rightarrow> field list" where
  "getScriptedFields p =
     (case fields' p of None \<Rightarrow> [] | Some fs \<Rightarrow> filter (\<lambda>f. scripted f = Some True) fs)"

text \<open>
  \<open>prepBody\<close>: for each key of the mapping whose property is neither \<open>null\<close> nor
  \<open>undefined\<close>, the body gets the key, with what \<open>_serialize\<close> returns where the mapping has
  one and with the property itself otherwise.
\<close>

fun serialized :: "'s services \<Rightarrow> indexPattern \<Rightarrow> key \<Rightarrow> string option option" where
  "serialized e p Title = map_option Some (title p)"
| "serialized e p TimeFieldName = map_option Some (timeFieldName p)"
| "serialized e p IntervalName = map_option Some (intervalName p)"
| "serialized e p Fields = map_option (fields_serialize e) (fields' p)"
| "serialized e p SourceFilters = map_option (json_serialize e) (sourceFilters p)"
| "serialized e p FieldFormatMap =
     map_option (\<lambda>m. fieldFormatMap_serialize e (Some m)) (fieldFormatMap p)"
| "serialized e p Type = map_option Some (type' p)"
| "serialized e p TypeMeta = map_option (json_serialize e) (typeMeta p)"

definition prepBody :: "'s services \<Rightarrow> indexPattern \<Rightarrow> 's world \<Rightarrow> body \<times> 's world" where
  "prepBody e p w =
     (List.map_filter (\<lambda>fieldName. map_option (Pair fieldName) (serialized e p fieldName))
        mapping_keys,
      log IdsClearCache w)"

text \<open>
  The first part of \<open>updateFromElasticSearch\<close>: every \<open>_deserialize\<close> of the mapping
  rewrites its key of \<open>_source\<close> (so these four keys are always assigned), \<open>_.assign\<close> copies
  the keys of \<open>_source\<close> onto the pattern, and a falsy title becomes the id.
\<close>

definition assign_source ::
  "'s services \<Rightarrow> indexPattern \<Rightarrow> (key \<times> string) list \<Rightarrow> indexPattern" where
  "assign_source e p src =
     p\<lparr>title := (case map_of src Title of None \<Rightarrow> title p | Some s \<Rightarrow> Some s),
       timeFieldName :=
         (case map_of src TimeFieldName of None \<Rightarrow> timeFieldName p | Some s \<Rightarrow> Some s),
       intervalName :=
         (case map_of src IntervalName of None \<Rightarrow> intervalName p | Some s \<Rightarrow> Some s),
       fields' := fields_deserialize e (map_of src Fields),
       sourceFilters := json_deserialize e (map_of src SourceFilters),
       fieldFormatMap := Some (fieldFormatMap_deserialize e (map_of src FieldFormatMap)),
       type' := (case map_of src Type of None \<Rightarrow> type' p | Some s \<Rightarrow> Some s),
       typeMeta := json_deserialize e (map_of src TypeMeta)\<rparr>"

definition default_title :: "indexPattern \<Rightarrow> indexPattern" where
  "default_title p = (if \<not> truthy (title p) then p\<lparr>title := id' p\<rparr> else p)"

definition fetchFields ::
  "'s services \<Rightarrow> indexPattern \<Rightarrow> 's world \<Rightarrow> (error + unit) \<times> indexPattern \<times> 's world" where
  "fetchFields e p w =
     (case fieldsFetcher_fetch e p (remote w) of
        (Inl err, r) \<Rightarrow> (Inl err, p, log (FieldsFetch (id' p)) (w\<lparr>remote := r\<rparr>))
      | (Inr fs, r) \<Rightarrow>
          (let scripted = getScriptedFields p;
               all = fs @ scripted
           in (Inr (), initFields e p (Some all), log (FieldsFetch (id' p)) (w\<lparr>remote := r\<rparr>))))"

subsection \<open>The pieces of save\<close>

text \<open>
  The two filters of \<open>save\<close>. Both read \<open>this.originalBody[key]\<close>, which throws a
  \<open>TypeError\<close> when the pattern has no \<open>originalBody\<close> and the read is reached.
\<close>

definition originalChangedKeys :: "body \<Rightarrow> body option \<Rightarrow> error + key list" where
  "originalChangedKeys body ob =
     (case ob of
        None \<Rightarrow> (if keys body = [] then Inr [] else Inl TypeError)
      | Some orig \<Rightarrow> Inr (filter (\<lambda>k. at body k \<noteq> at orig k) (keys body)))"

definition serverChangedKeys :: "body \<Rightarrow> body \<Rightarrow> body option \<Rightarrow> error + key list" where
  "serverChangedKeys updatedBody body ob =
     (case ob of
        None \<Rightarrow>
          (if list_ex (\<lambda>k. at updatedBody k \<noteq> at body k) (keys updatedBody)
           then Inl TypeError else Inr [])
      | Some orig \<Rightarrow>
          Inr (filter (\<lambda>k. at updatedBody k \<noteq> at body k \<and> at orig k \<noteq> at updatedBody k)
                 (keys updatedBody)))"

text \<open>The nested \<open>for\<close> statements; \<open>break\<close> leaves the inner one.\<close>

fun inner_loop :: "key \<Rightarrow> key list \<Rightarrow> bool \<Rightarrow> bool" where
  "inner_loop originalKey [] unresolved = unresolved"
| "inner_loop originalKey (serverKey # rest) unresolved =
     (if originalKey = serverKey then True else inner_loop originalKey rest unresolved)"

fun outer_loop :: "key list \<Rightarrow> key list \<Rightarrow> bool \<Rightarrow> bool" where
  "outer_loop [] serverKeys unresolved = unresolved"
| "outer_loop (originalKey # rest) serverKeys unresolved =
     outer_loop rest serverKeys (inner_loop originalKey serverKeys unresolved)"

definition unresolvedCollision :: "key list \<Rightarrow> key list \<Rightarrow> bool" where
  "unresolvedCollision originalKeys serverKeys = outer_loop originalKeys serverKeys False"

text \<open>\<open>this[key] = samePattern[key]\<close>\<close>

fun assignKey :: "indexPattern \<Rightarrow> key \<Rightarrow> indexPattern \<Rightarrow> indexPattern" where
  "assignKey samePattern Title p = p\<lparr>title := title samePattern\<rparr>"
| "assignKey samePattern TimeFieldName p = p\<lparr>timeFieldName := timeFieldName samePattern\<rparr>"
| "assignKey samePattern IntervalName p = p\<lparr>intervalName := intervalName samePattern\<rparr>"
| "assignKey samePattern Fields p = p\<lparr>fields' := fields' samePattern\<rparr>"
| "assignKey samePattern SourceFilters p = p\<lparr>sourceFilters := sourceFilters samePattern\<rparr>"
| "assignKey samePattern FieldFormatMap p = p\<lparr>fieldFormatMap := fieldFormatMap samePattern\<rparr>"
| "assignKey samePattern Type p = p\<lparr>type' := type' samePattern\<rparr>"
| "assignKey samePattern TypeMeta p = p\<lparr>typeMeta := typeMeta samePattern\<rparr>"

text \<open>
  The callback that runs once \<open>samePattern.init()\<close> has resolved, up to the retry: it
  either throws (which rejects \<open>save\<close>) or gives the pattern to save again.
\<close>

definition resolve_conflict ::
  "'s services \<Rightarrow> error \<Rightarrow> key list \<Rightarrow> body \<Rightarrow> indexPattern \<Rightarrow> indexPattern \<Rightarrow> 's world
     \<Rightarrow> (error + indexPattern) \<times> 's world" where
  "resolve_conflict e err originalKeys body p samePattern w =
     (case prepBody e samePattern w of
        (updatedBody, w1) \<Rightarrow>
          (case serverChangedKeys updatedBody body (originalBody p) of
             Inl thrown \<Rightarrow> (Inl thrown, w1)
           | Inr serverKeys \<Rightarrow>
               if unresolvedCollision originalKeys serverKeys
               then (Inl err, log (AddDanger unableWriteLabel) w1)
               else (Inr (setVersion (fold (assignKey samePattern) serverKeys p)
                            (version samePattern)),
                     log (PatternCacheClear (id' p)) w1)))"

definition update_request ::
  "'s services \<Rightarrow> indexPattern \<Rightarrow> body \<Rightarrow> 's world
     \<Rightarrow> (error + string option \<times> string option) \<times> 's world" where
  "update_request e p body w =
     (case savedObjectsClient_update e type_name (id' p) body (version p) (remote w) of
        (res, r) \<Rightarrow> (res, log (Update type_name (id' p) body (version p)) (w\<lparr>remote := r\<rparr>)))"

definition get_request ::
  "'s services \<Rightarrow> indexPattern \<Rightarrow> 's world \<Rightarrow> (error + savedObject) \<times> 's world" where
  "get_request e p w =
     (case savedObjectsClient_get e type_name (id' p) (remote w) of
        (res, r) \<Rightarrow> (res, log (Get type_name (id' p)) (w\<lparr>remote := r\<rparr>)))"

definition refreshFields_catch ::
  "error \<Rightarrow> indexPattern \<Rightarrow> 's world \<Rightarrow> field list option outcome \<times> indexPattern \<times> 's world" where
  "refreshFields_catch err p w =
     (case err of
        IndexPatternMissingIndices message \<Rightarrow> (Resolved (Some []), p, log (AddDanger message) w)
      | _ \<Rightarrow> (Rejected err, p, log (AddError err fetchFieldErrorTitle) w))"

subsection \<open>save, init and refreshFields\<close>

text \<open>
  \<open>save\<close> reloads the pattern with \<open>init\<close>, \<open>init\<close> may refresh the fields, and
  \<open>refreshFields\<close> saves: against a store that keeps answering 409 the chain of promises
  never settles. Each method is written first against the \<open>save\<close> it calls, given as
  the argument \<open>this_save\<close>; the recursion on the depth of nested saves follows. \<open>None\<close>
  is a promise that has not settled.
\<close>

type_synonym 's settled = "(unit outcome \<times> indexPattern \<times> 's world) option"

definition refreshFields_with ::
  "(nat \<Rightarrow> indexPattern \<Rightarrow> 's world \<Rightarrow> 's settled) \<Rightarrow> 's services \<Rightarrow> indexPattern \<Rightarrow> 's world
     \<Rightarrow> (field list option outcome \<times> indexPattern \<times> 's world) option" where
  "refreshFields_with this_save e p w =
     (case fetchFields e p w of
        (Inl err, p1, w1) \<Rightarrow> Some (refreshFields_catch err p1 w1)
      | (Inr u, p1, w1) \<Rightarrow>
          (case this_save 0 p1 w1 of
             None \<Rightarrow> None
           | Some (Resolved u', p2, w2) \<Rightarrow> Some (Resolved None, p2, w2)
           | Some (Rejected err, p2, w2) \<Rightarrow> Some (refreshFields_catch err p2 w2)
           | Some (Thrown err, p2, w2) \<Rightarrow> Some (refreshFields_catch err p2 w2)))"

definition indexFields_with ::
  "(nat \<Rightarrow> indexPattern \<Rightarrow> 's world \<Rightarrow> 's settled) \<Rightarrow> 's services \<Rightarrow> indexPattern \<Rightarrow> bool
     \<Rightarrow> 's world \<Rightarrow> 's settled" where
  "indexFields_with this_save e p forceFieldRefresh w =
     (if \<not> truthy (id' p) then Some (Resolved (), p, w)
      else if forceFieldRefresh \<or> isFieldRefreshRequired p
      then
        (case refreshFields_with this_save e p w of
           None \<Rightarrow> None
         | Some (Resolved u, p1, w1) \<Rightarrow> Some (Resolved (), initFields e p1 None, w1)
         | Some (Rejected err, p1, w1) \<Rightarrow> Some (Rejected err, p1, w1)
         | Some (Thrown err, p1, w1) \<Rightarrow> Some (Thrown err, p1, w1))
      else Some (Resolved (), initFields e p None, w))"

definition updateFromElasticSearch_with ::
  "(nat \<Rightarrow> indexPattern \<Rightarrow> 's world \<Rightarrow> 's settled) \<Rightarrow> 's services \<Rightarrow> indexPattern \<Rightarrow> response
     \<Rightarrow> bool \<Rightarrow> 's world \<Rightarrow> 's settled" where
  "updateFromElasticSearch_with this_save e p resp forceFieldRefresh w =
     (if \<not> found resp
      then Some (Thrown (SavedObjectNotFound type_name (id' p) not_found_link), p, w)
      else indexFields_with this_save e (default_title (assign_source e p (source resp)))
             forceFieldRefresh w)"

definition init_with ::
  "(nat \<Rightarrow> indexPattern \<Rightarrow> 's world \<Rightarrow> 's settled) \<Rightarrow> 's services \<Rightarrow> bool \<Rightarrow> indexPattern
     \<Rightarrow> 's world \<Rightarrow> 's settled" where
  "init_with this_save e forceFieldRefresh p w =
     (case watch p w of
        (p1, w1) \<Rightarrow>
          if \<not> truthy (id' p1) then Some (Resolved (), p1, w1)
          else
            (case get_request e p1 w1 of
               (Inl err, w2) \<Rightarrow> Some (Rejected err, p1, w2)
             | (Inr resp, w2) \<Rightarrow>
                 (case prepBody e (setVersion p1 (so_version resp)) w2 of
                    (body, w3) \<Rightarrow>
                      (case updateFromElasticSearch_with this_save e
                              ((setVersion p1 (so_version resp))\<lparr>originalBody := Some body\<rparr>)
                              \<lparr>source = attributes resp, found = truthy (so_version resp)\<rparr>
                              forceFieldRefresh w3 of
                         None \<Rightarrow> None
                       | Some (Resolved u, p2, w4) \<Rightarrow>
                           (case prepBody e p2 w4 of
                              (body', w5) \<Rightarrow>
                                Some (Resolved (), p2\<lparr>originalBody := Some body'\<rparr>, w5))
                       | Some (Rejected err, p2, w4) \<Rightarrow> Some (Rejected err, p2, w4)
                       | Some (Thrown err, p2, w4) \<Rightarrow> Some (Rejected err, p2, w4)))))"

definition save_with ::
  "(nat \<Rightarrow> indexPattern \<Rightarrow> 's world \<Rightarrow> 's settled) \<Rightarrow> 's services \<Rightarrow> nat \<Rightarrow> indexPattern
     \<Rightarrow> 's world \<Rightarrow> 's settled" where
  "save_with this_save e saveAttempts p w =
     (case prepBody e p w of
        (body, w1) \<Rightarrow>
          (case originalChangedKeys body (originalBody p) of
             Inl thrown \<Rightarrow> Some (Thrown thrown, p, w1)
           | Inr originalKeys \<Rightarrow>
               (case update_request e p body w1 of
                  (Inr (i, v), w2) \<Rightarrow> Some (Resolved (), setVersion (setId p i) v, w2)
                | (Inl err, w2) \<Rightarrow>
                    if err_status err = Some 409
                       \<and> saveAttempts < MAX_ATTEMPTS_TO_RESOLVE_CONFLICTS
                    then
                      (case init_with this_save e False (new_IndexPattern (id' p)) w2 of
                         None \<Rightarrow> None
                       | Some (Resolved u, samePattern, w3) \<Rightarrow>
                           (case resolve_conflict e err originalKeys body p samePattern w3 of
                              (Inl err', w4) \<Rightarrow> Some (Rejected err', p, w4)
                            | (Inr p', w4) \<Rightarrow>
                                in_then (this_save (Suc saveAttempts) p' w4))
                       | Some (Rejected err', samePattern, w3) \<Rightarrow> Some (Rejected err', p, w3)
                       | Some (Thrown err', samePattern, w3) \<Rightarrow> Some (Rejected err', p, w3))
                    else Some (Rejected err, p, w2))))"

text \<open>
  The first argument bounds the depth of nested saves: a \<open>save\<close> at depth \<open>0\<close> has not
  settled, and the methods a \<open>save\<close> at depth \<open>n + 1\<close> calls save at depth \<open>n\<close>.
\<close>

primrec save :: "nat \<Rightarrow> 's services \<Rightarrow> nat \<Rightarrow> indexPattern \<Rightarrow> 's world \<Rightarrow> 's settled" where
  "save 0 e = (\<lambda>saveAttempts p w. None)"
| "save (Suc n) e = save_with (save n e) e"

definition init :: "nat \<Rightarrow> 's services \<Rightarrow> bool \<Rightarrow> indexPattern \<Rightarrow> 's world \<Rightarrow> 's settled" where
  "init n e = init_with (save n e) e"

definition updateFromElasticSearch ::
  "nat \<Rightarrow> 's services \<Rightarrow> indexPattern \<Rightarrow> response \<Rightarrow> bool \<Rightarrow> 's world \<Rightarrow> 's settled" where
  "updateFromElasticSearch n e = updateFromElasticSearch_with (save n e) e"

definition indexFields ::
  "nat \<Rightarrow> 's services \<Rightarrow> indexPattern \<Rightarrow> bool \<Rightarrow> 's world \<Rightarrow> 's settled" where
  "indexFields n e = indexFields_with (save n e) e"

definition refreshFields ::
  "nat \<Rightarrow> 's services \<Rightarrow> indexPattern \<Rightarrow> 's world
     \<Rightarrow> (field list option outcome \<times> indexPattern \<times> 's world) option" where
  "refreshFields n e = refreshFields_with (save n e) e"

text \<open>
  One \<open>save\<close> settles wherever another does, and in the same way: the order in which the
  bound on the depth is compared.
\<close>

definition le_save ::
  "(nat \<Rightarrow> indexPattern \<Rightarrow> 's world \<Rightarrow> 's settled)
     \<Rightarrow> (nat \<Rightarrow> indexPattern \<Rightarrow> 's world \<Rightarrow> 's settled) \<Rightarrow> bool" where
  "le_save sv sv' = (\<forall>k p w x. sv k p w = Some x \<longrightarrow> sv' k p w = Some x)"

subsection \<open>The other methods\<close>

text \<open>
  \<open>addScriptedField\<close> returns nothing and drops the promise of the \<open>save\<close> it starts.
  \<open>Inl\<close> is what the method threw; \<open>Inr None\<close> is a return without a \<open>save\<close>, and
  \<open>Inr (Some r)\<close> a return after starting a \<open>save\<close> that settled as \<open>r\<close>, with the state
  once it has.
\<close>

definition started ::
  "'s settled \<Rightarrow> ((error + unit outcome option) \<times> indexPattern \<times> 's world) option" where
  "started s =
     (case s of
        None \<Rightarrow> None
      | Some (Thrown err, x) \<Rightarrow> Some (Inl err, x)
      | Some (r, x) \<Rightarrow> Some (Inr (Some r), x))"

definition addScriptedField ::
  "nat \<Rightarrow> 's services \<Rightarrow> string \<Rightarrow> string option \<Rightarrow> string option \<Rightarrow> string option
     \<Rightarrow> indexPattern \<Rightarrow> 's world
     \<Rightarrow> ((error + unit outcome option) \<times> indexPattern \<times> 's world) option" where
  "addScriptedField n e nm scr ty lng p w =
     (let scriptedFields = getScriptedFields p;
          names = map name scriptedFields
      in if nm \<in> set names then Some (Inl (DuplicateField nm), p, w)
         else
           (case fields' p of
              None \<Rightarrow> Some (Inl TypeError, p, w)
            | Some fs \<Rightarrow>
                started (save n e 0
                  (p\<lparr>fields' := Some (fs @
                     [\<lparr>name = nm,
                       ftype = Some (case ty of None \<Rightarrow> ''string'' | Some t \<Rightarrow> t),
                       count = None, scripted = Some True, script = scr, lang = lng,
                       aggregatable = None, searchable = None,
                       readFromDocValues = None\<rparr>])\<rparr>) w)))"


subsection \<open>Notions of the specification\<close>

text \<open>
  What the specification speaks of, written from its words, to compare the code with:
  whether the pattern has a property (\<open>this[key] != null\<close>), the value of a property, the
  keys the local body changed with respect to \<open>originalBody\<close>, and the keys the server's
  document changed with respect to both the local body and \<open>originalBody\<close>.
\<close>

fun has_property :: "indexPattern \<Rightarrow> key \<Rightarrow> bool" where
  "has_property p Title = (title p \<noteq> None)"
| "has_property p TimeFieldName = (timeFieldName p \<noteq> None)"
| "has_property p IntervalName = (intervalName p \<noteq> None)"
| "has_property p Fields = (fields' p \<noteq> None)"
| "has_property p SourceFilters = (sourceFilters p \<noteq> None)"
| "has_property p FieldFormatMap = (fieldFormatMap p \<noteq> None)"
| "has_property p Type = (type' p \<noteq> None)"
| "has_property p TypeMeta = (typeMeta p \<noteq> None)"

datatype propval =
    Text "string option"
  | FieldList "field list option"
  | Json "json option"
  | Formats "(string \<times> fieldFormat option) list option"

fun property :: "indexPattern \<Rightarrow> key \<Rightarrow> propval" where
  "property p Title = Text (title p)"
| "property p TimeFieldName = Text (timeFieldName p)"
| "property p IntervalName = Text (intervalName p)"
| "property p Fields = FieldList (fields' p)"
| "property p SourceFilters = Json (sourceFilters p)"
| "property p FieldFormatMap = Formats (fieldFormatMap p)"
| "property p Type = Text (type' p)"
| "property p TypeMeta = Json (typeMeta p)"

definition local_changes :: "body \<Rightarrow> body \<Rightarrow> key set" where
  "local_changes body orig = {k \<in> set (keys body). at body k \<noteq> at orig k}"

definition server_changes :: "body \<Rightarrow> body \<Rightarrow> body \<Rightarrow> key set" where
  "server_changes updatedBody body orig =
     {k \<in> set (keys updatedBody). at updatedBody k \<noteq> at body k \<and> at orig k \<noteq> at updatedBody k}"

subsection \<open>A store with one versioned document\<close>

text \<open>
  A store to run the methods against: it holds one document, accepts an update that
  carries the stored version and answers any other with status 409. Its fields fetcher
  finds no index for a pattern titled \<open>missing-*\<close>.
\<close>

record store =
  stored_version :: string
  stored_attributes :: "(key \<times> string) list"

definition capable_field :: "string \<Rightarrow> field" where
  "capable_field n =
     \<lparr>name = n, ftype = Some ''number'', count = Some 0, scripted = Some False,
      script = None, lang = None, aggregatable = Some True, searchable = Some True,
      readFromDocValues = Some True\<rparr>"

definition test_services :: "store services" where
  "test_services =
     \<lparr>savedObjectsClient_get = (\<lambda>t i st.
        (Inr \<lparr>so_id = i, so_type = t, so_version = Some (stored_version st),
              attributes = stored_attributes st\<rparr>, st)),
      savedObjectsClient_update = (\<lambda>t i b v st.
        if v = Some (stored_version st)
        then (Inr (i, Some (stored_version st @ ''+'')),
              st\<lparr>stored_version := stored_version st @ ''+'',
                 stored_attributes := List.map_filter (\<lambda>(k, x). map_option (Pair k) x) b\<rparr>)
        else (Inl (RequestError (Some 409) ''version conflict''), st)),
      savedObjectsClient_delete = (\<lambda>t i st. (Inr (), st)),
      fieldsFetcher_fetch = (\<lambda>p st.
        if title p = Some ''missing-*''
        then (Inl (IndexPatternMissingIndices ''No matching indices found''), st)
        else (Inr [capable_field ''bytes''], st)),
      fields_serialize = (\<lambda>fs. Some (concat (map name fs))),
      fields_deserialize = map_option (\<lambda>s. [capable_field s]),
      json_serialize = (\<lambda>j. case j of JText s \<Rightarrow> Some s | _ \<Rightarrow> Some ''null''),
      json_deserialize = map_option JText,
      angular_toJson = (\<lambda>m. concat (map fst m)),
      angular_fromJson = (\<lambda>s. if s = ''{}'' then [] else [(s, ''number'', JNull)]),
      fieldformats_byId = (\<lambda>i. if i = ''number'' then Some (FieldFormat ''number'') else None),
      new_Field = (\<lambda>f. f\<lparr>count := Some (case count f of None \<Rightarrow> 0 | Some c \<Rightarrow> c)\<rparr>)\<rparr>"

text \<open>The document \<open>logs\<close> at version \<open>v1\<close>, and a pattern loaded from it.\<close>

definition test_world :: "store world" where
  "test_world =
     \<lparr>remote = \<lparr>stored_version = ''v1'',
                stored_attributes = [(Title, ''logs-*''), (Fields, ''bytes'')]\<rparr>,
      trace = []\<rparr>"

definition loaded_pattern :: indexPattern where
  "loaded_pattern =
     \<lparr>id' = Some ''logs'', version = Some ''v1'', title = Some ''logs-*'',
      timeFieldName = None, intervalName = None, fields' = Some [capable_field ''bytes''],
      sourceFilters = None, fieldFormatMap = Some [], type' = None, typeMeta = None,
      originalBody = Some [(Title, Some ''logs-*''), (Fields, Some ''bytes''),
                           (FieldFormatMap, None)],
      watching = True\<rparr>"

text \<open>
  A pattern with a scripted field; a pattern that holds a version the store has left
  behind, with a time field chosen locally; the same with the title changed locally
  instead; a store whose document was retitled by someone else, and the pattern loaded
  anew from it.
\<close>

definition scripted_pattern :: indexPattern where
  "scripted_pattern =
     loaded_pattern\<lparr>fields' := Some [capable_field ''bytes'',
        (capable_field ''double'')\<lparr>scripted := Some True, script := Some ''doc.bytes * 2''\<rparr>]\<rparr>"

definition stale_pattern :: indexPattern where
  "stale_pattern = loaded_pattern\<lparr>version := Some ''v0'', timeFieldName := Some ''@timestamp''\<rparr>"

definition renamed_pattern :: indexPattern where
  "renamed_pattern = loaded_pattern\<lparr>version := Some ''v0'', title := Some ''apache-*''\<rparr>"

definition retitled_world :: "store world" where
  "retitled_world =
     test_world\<lparr>remote := \<lparr>stored_version = ''v1'',
        stored_attributes = [(Title, ''metrics-*''), (Fields, ''bytes'')]\<rparr>\<rparr>"

definition reloaded_pattern :: indexPattern where
  "reloaded_pattern =
     loaded_pattern\<lparr>title := Some ''metrics-*'',
       originalBody := Some [(Title, Some ''metrics-*''), (Fields, Some ''bytes''),
                             (FieldFormatMap, None)]\<rparr>"

definition conflict_error :: error where
  "conflict_error = RequestError (Some 409) ''version conflict''"

text \<open>
  A store whose document has no title, the pattern as loaded from it, and the pattern
  that went in with a title of its own as it comes out.
\<close>

definition untitled_world :: "store world" where
  "untitled_world =
     test_world\<lparr>remote := \<lparr>stored_version = ''v1'', stored_attributes = [(Fields, ''bytes'')]\<rparr>\<rparr>"

definition untitled_pattern :: indexPattern where
  "untitled_pattern =
     loaded_pattern\<lparr>title := Some ''logs'',
       originalBody := Some [(Title, Some ''logs''), (Fields, Some ''bytes''),
                             (FieldFormatMap, None)]\<rparr>"

definition kept_title_pattern :: indexPattern where
  "kept_title_pattern =
     loaded_pattern\<lparr>title := Some ''apache-*'',
       originalBody := Some [(Title, Some ''apache-*''), (Fields, Some ''bytes''),
                             (FieldFormatMap, None)]\<rparr>"




section \<open>Properties\<close>

subsection \<open>The log of calls\<close>

lemma trace_log: "trace (log ev w) = trace w @ [ev]"
  by (simp add: log_def)

lemma remote_log: "remote (log ev w) = remote w"
  by (simp add: log_def)

lemma prepBody_world: "snd (prepBody e p w) = log IdsClearCache w"
  by (simp add: prepBody_def)

subsection \<open>Caches\<close>



subsection \<open>The body of a pattern\<close>

lemma map_of_map_filter:
  "map_of (List.map_filter (\<lambda>k. map_option (Pair k) (f k)) ks) k =
     (if k \<in> set ks then f k else None)"
  by (induction ks) (auto simp: List.map_filter_simps split: option.splits)

lemma keys_map_filter:
  "map fst (List.map_filter (\<lambda>k. map_option (Pair k) (f k)) ks) = filter (\<lambda>k. f k \<noteq> None) ks"
  by (induction ks) (auto simp: List.map_filter_simps split: option.splits)

lemma set_mapping_keys: "k \<in> set mapping_keys"
  by (cases k) (simp_all add: mapping_keys_def)

lemma map_of_prepBody: "map_of (fst (prepBody e p w)) k = serialized e p k"
  by (simp add: prepBody_def map_of_map_filter set_mapping_keys)

lemma at_prepBody:
  "at (fst (prepBody e p w)) k = (case serialized e p k of None \<Rightarrow> None | Some v \<Rightarrow> v)"
  by (simp add: at_def map_of_prepBody)

lemma serialized_None: "(serialized e p k \<noteq> None) = has_property p k"
  by (cases k) simp_all

lemma serialized_Some: "(\<exists>y. serialized e p k = Some y) = has_property p k"
  using serialized_None [of e p k] by auto

lemma keys_prepBody: "keys (fst (prepBody e p w)) = filter (has_property p) mapping_keys"
  by (simp add: prepBody_def keys_def keys_map_filter serialized_Some)

lemma serializeFieldFormatMap_empty:
  "(serializeFieldFormatMap m = []) = (\<forall>(fld, format) \<in> set m. format = None)"
  by (induction m) (auto simp: serializeFieldFormatMap_def List.map_filter_simps split: option.splits)

lemma fieldFormatMap_serialize_None:
  "(fieldFormatMap_serialize e (Some m) = None) = (\<forall>(fld, format) \<in> set m. format = None)"
  by (simp add: fieldFormatMap_serialize_def Let_def serializeFieldFormatMap_empty)

text \<open>
  C5, as amended. \<open>prepBody\<close> puts a key in the body it returns exactly when the property
  of the pattern is neither \<open>null\<close> nor \<open>undefined\<close>, in the order of the mapping, with what
  the serializer of the mapping returns where it has one and with the property itself
  otherwise. The serializer of \<open>fieldFormatMap\<close> returns \<open>undefined\<close> exactly when the map
  has no entry with a format; the key is then still a key of the body, with the value
  \<open>undefined\<close>. The deserializer of \<open>fieldFormatMap\<close> gives the empty map for an absent
  value, \<open>angular.fromJson\<close> reading \<open>{}\<close> as the empty object.
\<close>

theorem prepBody_keys_and_values:
  "keys (fst (prepBody e p w)) = filter (has_property p) mapping_keys
   \<and> (k \<in> set (keys (fst (prepBody e p w))) \<longleftrightarrow> has_property p k)
   \<and> (title p = Some t \<longrightarrow> at (fst (prepBody e p w)) Title = Some t)
   \<and> (timeFieldName p = Some t \<longrightarrow> at (fst (prepBody e p w)) TimeFieldName = Some t)
   \<and> (intervalName p = Some t \<longrightarrow> at (fst (prepBody e p w)) IntervalName = Some t)
   \<and> (fields' p = Some fs \<longrightarrow> at (fst (prepBody e p w)) Fields = fields_serialize e fs)
   \<and> (sourceFilters p = Some j \<longrightarrow> at (fst (prepBody e p w)) SourceFilters = json_serialize e j)
   \<and> (fieldFormatMap p = Some m \<longrightarrow>
        at (fst (prepBody e p w)) FieldFormatMap = fieldFormatMap_serialize e (Some m))
   \<and> (type' p = Some t \<longrightarrow> at (fst (prepBody e p w)) Type = Some t)
   \<and> (typeMeta p = Some j \<longrightarrow> at (fst (prepBody e p w)) TypeMeta = json_serialize e j)
   \<and> (fieldFormatMap_serialize e (Some m) = None \<longleftrightarrow> (\<forall>(fld, format) \<in> set m. format = None))
   \<and> (fieldFormatMap p = Some m \<longrightarrow> (\<forall>(fld, format) \<in> set m. format = None) \<longrightarrow>
        map_of (fst (prepBody e p w)) FieldFormatMap = Some None)
   \<and> (angular_fromJson e ''{}'' = [] \<longrightarrow> fieldFormatMap_deserialize e None = [])"
  by (simp add: keys_prepBody set_mapping_keys at_prepBody map_of_prepBody
        fieldFormatMap_serialize_None fieldFormatMap_deserialize_def)

theorem prepBody_keys_and_values_witness:
  "keys (fst (prepBody test_services loaded_pattern test_world)) = [Title, Fields, FieldFormatMap]
   \<and> at (fst (prepBody test_services loaded_pattern test_world)) Title = Some ''logs-*''
   \<and> fieldFormatMap_serialize test_services (Some []) = None
   \<and> map_of (fst (prepBody test_services loaded_pattern test_world)) FieldFormatMap = Some None
   \<and> fieldFormatMap_deserialize test_services None = []"
  using prepBody_keys_and_values [of test_services loaded_pattern test_world Title "''logs-*''"
      "[capable_field ''bytes'']" JNull "[]"]
  by (simp add: loaded_pattern_def test_services_def mapping_keys_def)

text \<open>
  C5 as stated says that the key is omitted when the serializer returns \<open>undefined\<close>. For
  the loaded pattern, whose format map is empty, the serializer returns \<open>undefined\<close> and
  \<open>fieldFormatMap\<close> is a key of the body.
\<close>

theorem prepBody_omits_key_counterexample:
  "\<not> (fieldFormatMap_serialize test_services (fieldFormatMap loaded_pattern) = None
       \<longrightarrow> FieldFormatMap \<notin> set (keys (fst (prepBody test_services loaded_pattern test_world))))"
  by (simp add: keys_prepBody mapping_keys_def loaded_pattern_def fieldFormatMap_serialize_def
        serializeFieldFormatMap_def List.map_filter_simps)

subsection \<open>Scripted fields\<close>

text \<open>
  C6. For a pattern with a field list, \<open>addScriptedField\<close> throws \<open>DuplicateField\<close> when a
  scripted field has the given name, and pattern and world are as before; otherwise it
  appends the field with the given name, script, type (\<open>string\<close> when none is given) and
  language, with \<open>scripted: true\<close>, and starts a \<open>save\<close> of the pattern with that field.
  \<open>getScriptedFields\<close> is the list of the fields whose \<open>scripted\<close> is \<open>true\<close>,
  \<open>getNonScriptedFields\<close> of those whose \<open>scripted\<close> is \<open>false\<close>.
\<close>

theorem addScriptedField_duplicate_or_append:
  "(fields' p = Some fs \<longrightarrow> (\<exists>f \<in> set fs. scripted f = Some True \<and> name f = nm) \<longrightarrow>
      addScriptedField n e nm scr ty lng p w = Some (Inl (DuplicateField nm), p, w))
   \<and> (fields' p = Some fs \<longrightarrow> \<not> (\<exists>f \<in> set fs. scripted f = Some True \<and> name f = nm) \<longrightarrow>
      addScriptedField n e nm scr ty lng p w =
        started (save n e 0
          (p\<lparr>fields' := Some (fs @
             [\<lparr>name = nm, ftype = Some (case ty of None \<Rightarrow> ''string'' | Some t \<Rightarrow> t),
               count = None, scripted = Some True, script = scr, lang = lng,
               aggregatable = None, searchable = None, readFromDocValues = None\<rparr>])\<rparr>) w))
   \<and> (fields' p = Some fs \<longrightarrow>
        getScriptedFields p = filter (\<lambda>f. scripted f = Some True) fs
        \<and> getNonScriptedFields p = filter (\<lambda>f. scripted f = Some False) fs)"
  by (auto simp: addScriptedField_def getScriptedFields_def getNonScriptedFields_def Let_def)

subsection \<open>Every method only adds to the log\<close>

lemma prefix_log: "prefix (trace w) (trace (log ev w))"
  by (simp add: trace_log)

lemma prefix_log_trans: "prefix t (trace w) \<Longrightarrow> prefix t (trace (log ev w))"
  by (simp add: trace_log prefix_prefix)

lemma fetchFields_trace:
  "fetchFields e p w = (r, p1, w1) \<Longrightarrow> trace w1 = trace w @ [FieldsFetch (id' p)]"
  by (auto simp: fetchFields_def trace_log Let_def split: prod.splits sum.splits)

lemma refreshFields_catch_trace:
  "refreshFields_catch err p w = (r, p', w') \<Longrightarrow> prefix (trace w) (trace w')"
  by (auto simp: refreshFields_catch_def trace_log split: error.splits)

lemma refreshFields_with_prefix:
  assumes sv: "\<forall>k p w r p' w'. sv k p w = Some (r, p', w') \<longrightarrow> prefix (trace w) (trace w')"
    and run: "refreshFields_with sv e p w = Some (r, p', w')"
  shows "prefix (trace w) (trace w')"
proof (cases "fetchFields e p w")
  case (fields res p1 w1)
  have w1: "prefix (trace w) (trace w1)"
    using fetchFields_trace [OF fields] by simp
  show ?thesis
  proof (cases res)
    case (Inl err)
    with run fields have "refreshFields_catch err p1 w1 = (r, p', w')"
      by (simp add: refreshFields_with_def)
    from refreshFields_catch_trace [OF this] w1 show ?thesis
      by (rule prefix_order.trans [rotated])
  next
    case (Inr u)
    show ?thesis
    proof (cases "sv 0 p1 w1")
      case None
      with run fields Inr show ?thesis by (simp add: refreshFields_with_def)
    next
      case (Some s)
      obtain r2 p2 w2 where s: "s = (r2, p2, w2)" by (cases s)
      have w2: "prefix (trace w) (trace w2)"
        using sv Some s w1 by (meson prefix_order.trans)
      show ?thesis
      proof (cases r2)
        case (Resolved x)
        with run fields Inr Some s w2 show ?thesis by (simp add: refreshFields_with_def)
      next
        case (Rejected err)
        with run fields Inr Some s have "refreshFields_catch err p2 w2 = (r, p', w')"
          by (simp add: refreshFields_with_def)
        from refreshFields_catch_trace [OF this] w2 show ?thesis
          by (rule prefix_order.trans [rotated])
      next
        case (Thrown err)
        with run fields Inr Some s have "refreshFields_catch err p2 w2 = (r, p', w')"
          by (simp add: refreshFields_with_def)
        from refreshFields_catch_trace [OF this] w2 show ?thesis
          by (rule prefix_order.trans [rotated])
      qed
    qed
  qed
qed

lemma indexFields_with_prefix:
  assumes sv: "\<forall>k p w r p' w'. sv k p w = Some (r, p', w') \<longrightarrow> prefix (trace w) (trace w')"
    and run: "indexFields_with sv e p force w = Some (r, p', w')"
  shows "prefix (trace w) (trace w')"
  using run refreshFields_with_prefix [OF sv]
  by (auto simp: indexFields_with_def split: if_splits option.splits outcome.splits)

lemma updateFromElasticSearch_with_prefix:
  assumes sv: "\<forall>k p w r p' w'. sv k p w = Some (r, p', w') \<longrightarrow> prefix (trace w) (trace w')"
    and run: "updateFromElasticSearch_with sv e p resp force w = Some (r, p', w')"
  shows "prefix (trace w) (trace w')"
  using run indexFields_with_prefix [OF sv]
  by (auto simp: updateFromElasticSearch_with_def split: if_splits)

lemma watch_trace:
  "watch p w = (p1, w1) \<Longrightarrow>
     trace w1 = trace w @ (if watching p then [] else [ConfigWatchAll]) \<and> remote w1 = remote w
     \<and> p1 = p\<lparr>watching := True\<rparr>"
  by (auto simp: watch_def trace_log remote_log split: if_splits)

lemma get_request_trace:
  "get_request e p w = (res, w1) \<Longrightarrow> trace w1 = trace w @ [Get type_name (id' p)]"
  by (auto simp: get_request_def trace_log split: prod.splits)

lemma update_request_trace:
  "update_request e p body w = (res, w1) \<Longrightarrow>
     trace w1 = trace w @ [Update type_name (id' p) body (version p)]"
  by (auto simp: update_request_def trace_log split: prod.splits)

lemma prepBody_trace: "prepBody e p w = (body, w1) \<Longrightarrow> trace w1 = trace w @ [IdsClearCache]"
  by (auto simp: prepBody_def trace_log)

lemma init_with_trace:
  assumes sv: "\<forall>k p w r p' w'. sv k p w = Some (r, p', w') \<longrightarrow> prefix (trace w) (trace w')"
    and run: "init_with sv e force p w = Some (r, p', w')"
  shows "if truthy (id' p)
         then prefix (trace w @ (if watching p then [] else [ConfigWatchAll])
                        @ [Get type_name (id' p)]) (trace w')
         else trace w' = trace w @ (if watching p then [] else [ConfigWatchAll])"
proof (cases "watch p w")
  case (Pair p1 w1)
  note w1 = watch_trace [OF Pair]
  show ?thesis
  proof (cases "truthy (id' p)")
    case False
    with run Pair w1 show ?thesis by (simp add: init_with_def)
  next
    case True
    obtain res w2 where g: "get_request e p1 w1 = (res, w2)" by (cases "get_request e p1 w1")
    have w2: "trace w2 = trace w @ (if watching p then [] else [ConfigWatchAll])
                @ [Get type_name (id' p)]"
      using get_request_trace [OF g] w1 by simp
    show ?thesis
    proof (cases res)
      case (Inl err)
      with run Pair True g w1 w2 show ?thesis by (simp add: init_with_def)
    next
      case (Inr resp)
      obtain body w3 where b: "prepBody e (setVersion p1 (so_version resp)) w2 = (body, w3)"
        by (cases "prepBody e (setVersion p1 (so_version resp)) w2")
      have w3: "prefix (trace w2) (trace w3)" using prepBody_trace [OF b] by simp
      let ?u = "updateFromElasticSearch_with sv e
                  ((setVersion p1 (so_version resp))\<lparr>originalBody := Some body\<rparr>)
                  \<lparr>source = attributes resp, found = truthy (so_version resp)\<rparr> force w3"
      show ?thesis
      proof (cases ?u)
        case None
        with run Pair True g Inr b w1 show ?thesis by (simp add: init_with_def)
      next
        case (Some s)
        obtain r4 p4 w4 where s: "s = (r4, p4, w4)" by (cases s)
        have w4: "prefix (trace w3) (trace w4)"
          using updateFromElasticSearch_with_prefix [OF sv] Some s by blast
        have "prefix (trace w4) (trace w')"
          using run Pair True g Inr b w1 Some s
          by (cases r4) (auto simp: init_with_def prepBody_def trace_log split: prod.splits)
        with w4 w3 have "prefix (trace w2) (trace w')" by (meson prefix_order.trans)
        with True w2 show ?thesis by simp
      qed
    qed
  qed
qed

lemma init_with_prefix:
  assumes sv: "\<forall>k p w r p' w'. sv k p w = Some (r, p', w') \<longrightarrow> prefix (trace w) (trace w')"
    and run: "init_with sv e force p w = Some (r, p', w')"
  shows "prefix (trace w) (trace w')"
proof -
  have "if truthy (id' p)
         then prefix (trace w @ (if watching p then [] else [ConfigWatchAll])
                        @ [Get type_name (id' p)]) (trace w')
         else trace w' = trace w @ (if watching p then [] else [ConfigWatchAll])"
    using sv run by (rule init_with_trace)
  then show ?thesis
    by (cases "truthy (id' p)") (auto dest: append_prefixD)
qed

lemma resolve_conflict_prefix:
  "resolve_conflict e err ks body p sp w = (res, w') \<Longrightarrow> prefix (trace w) (trace w')"
  by (auto simp: resolve_conflict_def prepBody_def trace_log prefix_def
      split: sum.splits if_splits)

lemma in_then_Some:
  "in_then s = Some (r, x) \<Longrightarrow> \<exists>r'. s = Some (r', x) \<and> r = caught r'"
  by (auto simp: in_then_def split: option.splits)

lemma save_with_trace:
  assumes sv: "\<forall>k p w r p' w'. sv k p w = Some (r, p', w') \<longrightarrow> prefix (trace w) (trace w')"
    and run: "save_with sv e k p w = Some (r, p', w')"
  shows "prefix (trace w @ [IdsClearCache]) (trace w')
         \<and> ((\<forall>err. r \<noteq> Thrown err) \<longrightarrow>
              prefix (trace w @ [IdsClearCache,
                        Update type_name (id' p) (fst (prepBody e p w)) (version p)]) (trace w'))"
proof (cases "prepBody e p w")
  case (Pair body w1)
  note w1 = prepBody_trace [OF Pair]
  show ?thesis
  proof (cases "originalChangedKeys body (originalBody p)")
    case (Inl thrown)
    with run Pair w1 show ?thesis by (auto simp: save_with_def)
  next
    case (Inr ks)
    obtain res w2 where u: "update_request e p body w1 = (res, w2)"
      by (cases "update_request e p body w1")
    have w2: "trace w2 = trace w @ [IdsClearCache, Update type_name (id' p) body (version p)]"
      using update_request_trace [OF u] w1 by simp
    have "prefix (trace w2) (trace w')"
    proof (cases res)
      case ok: (Inr iv)
      with run Pair Inr u show ?thesis by (auto simp: save_with_def split: prod.splits)
    next
      case (Inl err)
      show ?thesis
      proof (cases "err_status err = Some 409 \<and> k < MAX_ATTEMPTS_TO_RESOLVE_CONFLICTS")
        case False
        with run Pair Inr u Inl show ?thesis by (auto simp: save_with_def)
      next
        case True
        let ?i = "init_with sv e False (new_IndexPattern (id' p)) w2"
        show ?thesis
        proof (cases ?i)
          case None
          with run Pair Inr u Inl True show ?thesis by (simp add: save_with_def)
        next
          case (Some s)
          obtain r3 sp w3 where s: "s = (r3, sp, w3)" by (cases s)
          have w3: "prefix (trace w2) (trace w3)"
            using init_with_prefix [OF sv] Some s by blast
          show ?thesis
          proof (cases r3)
            case (Resolved x)
            obtain res4 w4 where rc: "resolve_conflict e err ks body p sp w3 = (res4, w4)"
              by (cases "resolve_conflict e err ks body p sp w3")
            have w4: "prefix (trace w3) (trace w4)" using resolve_conflict_prefix [OF rc] .
            have "prefix (trace w4) (trace w')"
            proof (cases res4)
              case bad: (Inl err')
              with run Pair Inr u Inl True Some s Resolved rc show ?thesis
                by (simp add: save_with_def)
            next
              case again: (Inr p2)
              with run Pair Inr u Inl True Some s Resolved rc
              have "in_then (sv (Suc k) p2 w4) = Some (r, p', w')"
                by (simp add: save_with_def)
              from in_then_Some [OF this] sv show ?thesis by blast
            qed
            with w4 w3 show ?thesis by (meson prefix_order.trans)
          next
            case (Rejected err')
            with run Pair Inr u Inl True Some s w3 show ?thesis by (simp add: save_with_def)
          next
            case (Thrown err')
            with run Pair Inr u Inl True Some s w3 show ?thesis by (simp add: save_with_def)
          qed
        qed
      qed
    qed
    with w2 Pair show ?thesis by (auto simp: prefix_def)
  qed
qed

lemma save_prefix: "save n e k p w = Some (r, p', w') \<Longrightarrow> prefix (trace w) (trace w')"
proof (induction n arbitrary: k p w r p' w')
  case 0
  then show ?case by simp
next
  case (Suc n)
  from Suc.prems have "save_with (save n e) e k p w = Some (r, p', w')" by simp
  moreover have "\<forall>k p w r p' w'. save n e k p w = Some (r, p', w') \<longrightarrow> prefix (trace w) (trace w')"
    using Suc.IH by blast
  ultimately have "prefix (trace w @ [IdsClearCache]) (trace w')"
    using save_with_trace by blast
  then show ?case by (rule append_prefixD)
qed

subsection \<open>Loading\<close>

lemma watching_update: "watching p \<Longrightarrow> p\<lparr>watching := True\<rparr> = p"
  by simp

lemma init_unfold: "init n e force p w = init_with (save n e) e force p w"
  by (simp add: init_def)

lemma save_prefix_all:
  "\<forall>k p w r p' w'. save n e k p w = Some (r, p', w') \<longrightarrow> prefix (trace w) (trace w')"
  using save_prefix by blast

text \<open>
  C4. \<open>init\<close> of a pattern without an id resolves to the pattern, which now watches the
  configuration, and makes no request: the store is as before and the log gains at most
  the subscription to the configuration. \<open>init\<close> of a pattern with an id asks the store
  for the saved object of type \<open>index-pattern\<close> with that id before anything else it asks;
  it rejects with the error of that request if it fails, and with \<open>SavedObjectNotFound\<close>
  if the object comes without a version.
\<close>

theorem init_fetches_or_resolves:
  "(\<not> truthy (id' p) \<longrightarrow>
      init n e force p w =
        Some (Resolved (), p\<lparr>watching := True\<rparr>, if watching p then w else log ConfigWatchAll w))
   \<and> (truthy (id' p) \<longrightarrow>
       savedObjectsClient_get e type_name (id' p) (remote w) = (Inl err, r) \<longrightarrow>
       (\<exists>w'. init n e force p w = Some (Rejected err, p\<lparr>watching := True\<rparr>, w')
          \<and> remote w' = r
          \<and> trace w' = trace w @ (if watching p then [] else [ConfigWatchAll])
                          @ [Get type_name (id' p)]))
   \<and> (truthy (id' p) \<longrightarrow>
       savedObjectsClient_get e type_name (id' p) (remote w) = (Inr resp, r) \<longrightarrow>
       \<not> truthy (so_version resp) \<longrightarrow>
       (\<exists>p' w'. init n e force p w =
            Some (Rejected (SavedObjectNotFound type_name (id' p) not_found_link), p', w')
          \<and> remote w' = r
          \<and> trace w' = trace w @ (if watching p then [] else [ConfigWatchAll])
                          @ [Get type_name (id' p), IdsClearCache]))
   \<and> (truthy (id' p) \<longrightarrow> init n e force p w = Some (out, p', w') \<longrightarrow>
       prefix (trace w @ (if watching p then [] else [ConfigWatchAll])
                @ [Get type_name (id' p)]) (trace w'))"
proof (intro conjI impI)
  assume "\<not> truthy (id' p)"
  then show "init n e force p w =
        Some (Resolved (), p\<lparr>watching := True\<rparr>, if watching p then w else log ConfigWatchAll w)"
    by (simp add: init_unfold init_with_def watch_def)
next
  assume "truthy (id' p)"
    and "savedObjectsClient_get e type_name (id' p) (remote w) = (Inl err, r)"
  then show "\<exists>w'. init n e force p w = Some (Rejected err, p\<lparr>watching := True\<rparr>, w')
          \<and> remote w' = r
          \<and> trace w' = trace w @ (if watching p then [] else [ConfigWatchAll])
                          @ [Get type_name (id' p)]"
    by (simp add: init_unfold init_with_def watch_def get_request_def remote_log trace_log)
next
  assume "truthy (id' p)"
    and "savedObjectsClient_get e type_name (id' p) (remote w) = (Inr resp, r)"
    and "\<not> truthy (so_version resp)"
  then show "\<exists>p' w'. init n e force p w =
            Some (Rejected (SavedObjectNotFound type_name (id' p) not_found_link), p', w')
          \<and> remote w' = r
          \<and> trace w' = trace w @ (if watching p then [] else [ConfigWatchAll])
                          @ [Get type_name (id' p), IdsClearCache]"
    by (simp add: init_unfold init_with_def watch_def get_request_def remote_log trace_log
          prepBody_def updateFromElasticSearch_with_def setVersion_def)
next
  assume "truthy (id' p)" and "init n e force p w = Some (out, p', w')"
  then show "prefix (trace w @ (if watching p then [] else [ConfigWatchAll])
                @ [Get type_name (id' p)]) (trace w')"
    using init_with_trace [OF save_prefix_all, where force = force and p = p and w = w
        and r = out and p' = p' and w' = w']
    by (simp add: init_unfold)
qed

lemma test_get:
  "savedObjectsClient_get test_services t i st =
     (Inr \<lparr>so_id = i, so_type = t, so_version = Some (stored_version st),
           attributes = stored_attributes st\<rparr>, st)"
  by (simp add: test_services_def)

lemma new_IndexPattern_simps:
  "id' (new_IndexPattern i) = i" "watching (new_IndexPattern i) = False"
  "originalBody (new_IndexPattern i) = None" "title (new_IndexPattern i) = None"
  by (simp_all add: new_IndexPattern_def)

theorem init_fetches_or_resolves_witness:
  "init 0 test_services False (new_IndexPattern None) test_world =
     Some (Resolved (), (new_IndexPattern None)\<lparr>watching := True\<rparr>, log ConfigWatchAll test_world)
   \<and> (\<exists>p' w'. init 0 test_services False (new_IndexPattern (Some ''logs''))
                 (test_world\<lparr>remote := (remote test_world)\<lparr>stored_version := ''''\<rparr>\<rparr>) =
        Some (Rejected (SavedObjectNotFound type_name (Some ''logs'') not_found_link), p', w')
        \<and> trace w' = [ConfigWatchAll, Get type_name (Some ''logs''), IdsClearCache])"
proof -
  have none: "\<not> truthy (id' (new_IndexPattern None))"
    and logs: "truthy (id' (new_IndexPattern (Some ''logs'')))"
    by (simp_all add: truthy_def new_IndexPattern_simps)
  have empty: "\<not> truthy (so_version \<lparr>so_id = Some ''logs'', so_type = type_name,
      so_version = Some '''', attributes = [(Title, ''logs-*''), (Fields, ''bytes'')]\<rparr>)"
    by (simp add: truthy_def)
  have get: "savedObjectsClient_get test_services type_name
      (id' (new_IndexPattern (Some ''logs'')))
      (remote (test_world\<lparr>remote := (remote test_world)\<lparr>stored_version := ''''\<rparr>\<rparr>)) =
      (Inr \<lparr>so_id = Some ''logs'', so_type = type_name, so_version = Some '''',
             attributes = [(Title, ''logs-*''), (Fields, ''bytes'')]\<rparr>,
       (remote test_world)\<lparr>stored_version := ''''\<rparr>)"
    by (simp add: test_get new_IndexPattern_simps test_world_def)
  show ?thesis
    using init_fetches_or_resolves [where p = "new_IndexPattern None" and n = 0
        and e = test_services and force = False and w = test_world] none
      init_fetches_or_resolves [where p = "new_IndexPattern (Some ''logs'')" and n = 0
        and e = test_services and force = False
        and w = "test_world\<lparr>remote := (remote test_world)\<lparr>stored_version := ''''\<rparr>\<rparr>",
        THEN conjunct2, THEN conjunct2, THEN conjunct1, rule_format, OF logs get empty]
    by (auto simp: new_IndexPattern_simps test_world_def)
qed

subsection \<open>Refreshing the fields\<close>

lemma refreshFields_unfold: "refreshFields n e p w = refreshFields_with (save n e) e p w"
  by (simp add: refreshFields_def)

text \<open>
  C7. \<open>refreshFields\<close> fetches the fields, makes the new field list of the fetched fields
  followed by the scripted fields of the pattern, and saves the pattern with it. If the
  fetch or the save fails with \<open>IndexPatternMissingIndices\<close> it tells the user with
  \<open>addDanger\<close> and resolves with the empty list; on any other error it tells the user with
  \<open>addError\<close> and rejects with that error; if both succeed it resolves.
\<close>

theorem refreshFields_fetch_merge_save:
  assumes fetch: "fieldsFetcher_fetch e p (remote w) = (res, r)"
    and w1: "w1 = log (FieldsFetch (id' p)) (w\<lparr>remote := r\<rparr>)"
    and p1: "p1 = p\<lparr>fields' := Some (map (new_Field e) (fs @ getScriptedFields p))\<rparr>"
  shows "(res = Inl (IndexPatternMissingIndices m) \<longrightarrow>
            refreshFields n e p w = Some (Resolved (Some []), p, log (AddDanger m) w1))
       \<and> (res = Inl err \<longrightarrow> (\<forall>m. err \<noteq> IndexPatternMissingIndices m) \<longrightarrow>
            refreshFields n e p w =
              Some (Rejected err, p, log (AddError err fetchFieldErrorTitle) w1))
       \<and> (res = Inr fs \<longrightarrow> save n e 0 p1 w1 = Some (Resolved (), p2, w2) \<longrightarrow>
            refreshFields n e p w = Some (Resolved None, p2, w2))
       \<and> (res = Inr fs \<longrightarrow>
            save n e 0 p1 w1 = Some (Rejected (IndexPatternMissingIndices m), p2, w2)
            \<or> save n e 0 p1 w1 = Some (Thrown (IndexPatternMissingIndices m), p2, w2) \<longrightarrow>
            refreshFields n e p w = Some (Resolved (Some []), p2, log (AddDanger m) w2))
       \<and> (res = Inr fs \<longrightarrow>
            save n e 0 p1 w1 = Some (Rejected err, p2, w2)
            \<or> save n e 0 p1 w1 = Some (Thrown err, p2, w2) \<longrightarrow>
            (\<forall>m. err \<noteq> IndexPatternMissingIndices m) \<longrightarrow>
            refreshFields n e p w =
              Some (Rejected err, p2, log (AddError err fetchFieldErrorTitle) w2))"
proof -
  have other: "(\<forall>m. err \<noteq> IndexPatternMissingIndices m) \<Longrightarrow>
      refreshFields_catch err q v = (Rejected err, q, log (AddError err fetchFieldErrorTitle) v)"
    for q :: indexPattern and v :: "'a world"
    by (cases err) (simp_all add: refreshFields_catch_def)
  have missing: "refreshFields_catch (IndexPatternMissingIndices m) q v =
      (Resolved (Some []), q, log (AddDanger m) v)"
    for q :: indexPattern and v :: "'a world"
    by (simp add: refreshFields_catch_def)
  have bad: "res = Inl x \<Longrightarrow> fetchFields e p w = (Inl x, p, w1)" for x
    using fetch w1 by (simp add: fetchFields_def)
  have good: "res = Inr fs \<Longrightarrow> fetchFields e p w = (Inr (), p1, w1)"
    using fetch w1 p1 by (simp add: fetchFields_def initFields_def)
  show ?thesis
    using other missing bad good
    by (auto simp: refreshFields_unfold refreshFields_with_def)
qed

lemma test_fetch_missing:
  "title p = Some ''missing-*'' \<Longrightarrow>
   fieldsFetcher_fetch test_services p st =
     (Inl (IndexPatternMissingIndices ''No matching indices found''), st)"
  by (simp add: test_services_def)

theorem refreshFields_fetch_merge_save_witness:
  "refreshFields 0 test_services (loaded_pattern\<lparr>title := Some ''missing-*''\<rparr>) test_world =
     Some (Resolved (Some []), loaded_pattern\<lparr>title := Some ''missing-*''\<rparr>,
           log (AddDanger ''No matching indices found'')
             (log (FieldsFetch (Some ''logs'')) test_world))"
proof -
  have fetch: "fieldsFetcher_fetch test_services (loaded_pattern\<lparr>title := Some ''missing-*''\<rparr>)
      (remote test_world) =
      (Inl (IndexPatternMissingIndices ''No matching indices found''), remote test_world)"
    by (simp add: test_fetch_missing)
  show ?thesis
    using refreshFields_fetch_merge_save [OF fetch refl refl,
        where m = "''No matching indices found''" and n = 0]
    by (simp add: loaded_pattern_def)
qed

subsection \<open>Saving\<close>

lemma save_Suc: "save (Suc n) e k p w = save_with (save n e) e k p w"
  by simp

lemma originalChangedKeys_Some:
  "originalBody p = Some orig \<Longrightarrow> \<exists>ks. originalChangedKeys body (originalBody p) = Inr ks"
  by (simp add: originalChangedKeys_def)

lemma caught_not_Thrown: "caught r \<noteq> Thrown err"
  by (cases r) simp_all

lemma save_with_not_thrown:
  assumes "originalBody p = Some orig" and "save_with sv e k p w = Some (out, p', w')"
  shows "out \<noteq> Thrown err"
  using assms
  by (auto simp: save_with_def originalChangedKeys_def caught_not_Thrown
      split: prod.splits sum.splits if_splits option.splits outcome.splits
      dest!: in_then_Some)

lemma update_request_eq:
  "savedObjectsClient_update e type_name (id' p) body (version p) (remote w) = (res, r) \<Longrightarrow>
   update_request e p body w =
     (res, w\<lparr>remote := r, trace := trace w @ [Update type_name (id' p) body (version p)]\<rparr>)"
  by (simp add: update_request_def log_def)

text \<open>
  C2. The retries are bounded by three. When the update fails with an error whose status
  is not 409, or after that many retries, \<open>save\<close>, of a pattern with an \<open>originalBody\<close>,
  rejects with that error, leaves the pattern as it is and makes no further call. A
  \<open>save\<close> that reloads the pattern (it asks the store for the document) was answered with
  status 409 and had made fewer than three retries.
\<close>

theorem save_retry_budget:
  "MAX_ATTEMPTS_TO_RESOLVE_CONFLICTS = 3
   \<and> (originalBody p = Some orig \<longrightarrow>
    savedObjectsClient_update e type_name (id' p) (fst (prepBody e p w)) (version p)
      (remote w) = (Inl err, r) \<longrightarrow>
    err_status err \<noteq> Some 409 \<or> MAX_ATTEMPTS_TO_RESOLVE_CONFLICTS \<le> saveAttempts \<longrightarrow>
    save (Suc n) e saveAttempts p w =
      Some (Rejected err, p,
            w\<lparr>remote := r,
              trace := trace w @ [IdsClearCache,
                Update type_name (id' p) (fst (prepBody e p w)) (version p)]\<rparr>))
   \<and> (save (Suc n) e saveAttempts p w = Some (out, p', w') \<longrightarrow>
      Get type_name (id' p) \<in> set (drop (length (trace w)) (trace w')) \<longrightarrow>
      saveAttempts < MAX_ATTEMPTS_TO_RESOLVE_CONFLICTS
      \<and> (\<exists>err r. savedObjectsClient_update e type_name (id' p) (fst (prepBody e p w))
                    (version p) (remote w) = (Inl err, r) \<and> err_status err = Some 409))"
proof -
  { assume ob: "originalBody p = Some orig"
    and "savedObjectsClient_update e type_name (id' p) (fst (prepBody e p w)) (version p)
      (remote w) = (Inl err, r)"
    and stop: "err_status err \<noteq> Some 409 \<or> MAX_ATTEMPTS_TO_RESOLVE_CONFLICTS \<le> saveAttempts"
  then have "update_request e p (fst (prepBody e p w)) (log IdsClearCache w) =
      (Inl err, w\<lparr>remote := r, trace := trace w @ [IdsClearCache,
         Update type_name (id' p) (fst (prepBody e p w)) (version p)]\<rparr>)"
    using update_request_eq [where w = "log IdsClearCache w" and e = e and p = p
        and body = "fst (prepBody e p w)"]
    by (simp add: log_def)
  then have "save (Suc n) e saveAttempts p w =
      Some (Rejected err, p,
            w\<lparr>remote := r,
              trace := trace w @ [IdsClearCache,
                Update type_name (id' p) (fst (prepBody e p w)) (version p)]\<rparr>)"
    using ob stop
    by (auto simp: save_with_def originalChangedKeys_def prepBody_world split_beta
          MAX_ATTEMPTS_TO_RESOLVE_CONFLICTS_def) }
  note first = this
  { assume run: "save (Suc n) e saveAttempts p w = Some (out, p', w')"
    and get: "Get type_name (id' p) \<in> set (drop (length (trace w)) (trace w'))"
  obtain res r where u: "savedObjectsClient_update e type_name (id' p) (fst (prepBody e p w))
      (version p) (remote w) = (res, r)"
    by (cases "savedObjectsClient_update e type_name (id' p) (fst (prepBody e p w))
      (version p) (remote w)")
  then have ur: "update_request e p (fst (prepBody e p w)) (log IdsClearCache w) =
      (res, w\<lparr>remote := r, trace := trace w @ [IdsClearCache,
         Update type_name (id' p) (fst (prepBody e p w)) (version p)]\<rparr>)"
    using update_request_eq [where w = "log IdsClearCache w" and e = e and p = p
        and body = "fst (prepBody e p w)"]
    by (simp add: log_def)
  have "saveAttempts < MAX_ATTEMPTS_TO_RESOLVE_CONFLICTS
      \<and> (\<exists>err r. savedObjectsClient_update e type_name (id' p) (fst (prepBody e p w))
                    (version p) (remote w) = (Inl err, r) \<and> err_status err = Some 409)"
  proof (rule ccontr)
    assume neg: "\<not> ?thesis"
    have "trace w' = trace w @ [IdsClearCache]
        \<or> trace w' = trace w @ [IdsClearCache,
             Update type_name (id' p) (fst (prepBody e p w)) (version p)]"
      using run ur u neg
      by (auto simp: save_with_def prepBody_world split_beta trace_log
            MAX_ATTEMPTS_TO_RESOLVE_CONFLICTS_def
          split: sum.splits if_splits)
    with get show False by auto
  qed }
  note second = this
  from first second show ?thesis
    by (simp only: MAX_ATTEMPTS_TO_RESOLVE_CONFLICTS_def) blast
qed

subsection \<open>The bound on the depth\<close>

text \<open>
  A promise that settles within a bound settles in the same way within every larger one:
  the bound decides only whether the model reaches the end of a run.
\<close>

lemma refreshFields_with_mono:
  "le_save sv sv' \<Longrightarrow> refreshFields_with sv e p w = Some x
     \<Longrightarrow> refreshFields_with sv' e p w = Some x"
  by (auto simp: refreshFields_with_def le_save_def split: prod.splits sum.splits option.splits)

lemma indexFields_with_mono:
  "le_save sv sv' \<Longrightarrow> indexFields_with sv e p f w = Some x
     \<Longrightarrow> indexFields_with sv' e p f w = Some x"
  using refreshFields_with_mono [of sv sv' e p w]
  by (auto simp: indexFields_with_def split: if_splits option.splits)

lemma updateFromElasticSearch_with_mono:
  "le_save sv sv' \<Longrightarrow> updateFromElasticSearch_with sv e p resp f w = Some x
     \<Longrightarrow> updateFromElasticSearch_with sv' e p resp f w = Some x"
  using indexFields_with_mono [of sv sv']
  by (auto simp: updateFromElasticSearch_with_def split: if_splits)

lemma init_with_mono:
  "le_save sv sv' \<Longrightarrow> init_with sv e f p w = Some x \<Longrightarrow> init_with sv' e f p w = Some x"
  using updateFromElasticSearch_with_mono [of sv sv' e]
  by (auto simp: init_with_def split: prod.splits if_splits sum.splits option.splits)

lemma save_with_mono:
  "le_save sv sv' \<Longrightarrow> save_with sv e k p w = Some x \<Longrightarrow> save_with sv' e k p w = Some x"
  using init_with_mono [of sv sv' e False]
  by (auto simp: save_with_def in_then_def le_save_def
      split: prod.splits if_splits sum.splits option.splits outcome.splits)

lemma save_mono_Suc: "le_save (save n e) (save (Suc n) e)"
proof (induction n)
  case 0
  show ?case by (simp add: le_save_def)
next
  case (Suc n)
  then show ?case
    using save_with_mono [of "save n e" "save (Suc n) e" e]
    by (simp add: le_save_def)
qed

lemma save_mono: "save n e k p w = Some x \<Longrightarrow> save (n + m) e k p w = Some x"
proof (induction m)
  case 0
  then show ?case by simp
next
  case (Suc m)
  then have "save (n + m) e k p w = Some x" by simp
  with save_mono_Suc [of "n + m" e] have "save (Suc (n + m)) e k p w = Some x"
    unfolding le_save_def by blast
  then show ?case by simp
qed

lemma init_mono: "init n e f p w = Some x \<Longrightarrow> init (n + m) e f p w = Some x"
  using init_with_mono [of "save n e" "save (n + m) e" e f p w x] save_mono [of n e]
  by (simp add: init_unfold le_save_def)

lemma refreshFields_mono:
  "refreshFields n e p w = Some x \<Longrightarrow> refreshFields (n + m) e p w = Some x"
  using refreshFields_with_mono [of "save n e" "save (n + m) e" e p w x] save_mono [of n e]
  by (simp add: refreshFields_unfold le_save_def)

subsection \<open>Resolving a conflict\<close>

lemma inner_loop_iff: "inner_loop k ys u = (u \<or> k \<in> set ys)"
  by (induction ys) auto

lemma outer_loop_iff: "outer_loop xs ys u = (u \<or> set xs \<inter> set ys \<noteq> {})"
  by (induction xs arbitrary: u) (auto simp: inner_loop_iff)

lemma unresolvedCollision_iff: "unresolvedCollision xs ys = (set xs \<inter> set ys \<noteq> {})"
  by (simp add: unresolvedCollision_def outer_loop_iff)

lemma assignKey_other:
  "id' (assignKey sp k p) = id' p" "version (assignKey sp k p) = version p"
  "originalBody (assignKey sp k p) = originalBody p" "watching (assignKey sp k p) = watching p"
  by (cases k; simp)+

lemma property_assignKey:
  "property (assignKey sp k p) k' = (if k' = k then property sp k' else property p k')"
  by (cases k; cases k'; simp)

lemma fold_assignKey_other:
  "id' (fold (assignKey sp) ks p) = id' p \<and> version (fold (assignKey sp) ks p) = version p
   \<and> originalBody (fold (assignKey sp) ks p) = originalBody p
   \<and> watching (fold (assignKey sp) ks p) = watching p"
  by (induction ks arbitrary: p) (simp_all add: assignKey_other)

lemma property_fold_assignKey:
  "property (fold (assignKey sp) ks p) k =
     (if k \<in> set ks then property sp k else property p k)"
  by (induction ks arbitrary: p) (auto simp: property_assignKey)

lemma originalChangedKeys_set:
  "originalChangedKeys body (Some orig) = Inr ks \<Longrightarrow> set ks = local_changes body orig"
  by (auto simp: originalChangedKeys_def local_changes_def)

lemma serverChangedKeys_set:
  "serverChangedKeys updatedBody body (Some orig) = Inr ks \<Longrightarrow>
     set ks = server_changes updatedBody body orig"
  by (auto simp: serverChangedKeys_def server_changes_def)

text \<open>
  C1. \<open>save\<close>, of a pattern with an \<open>originalBody\<close>, gets a 409 from the update, with
  retries left. It reloads the pattern (\<open>init\<close> of a new pattern with the same id), which
  asks the store for the document with that id right after the update. When the reload
  has resolved: if a key that the local body changed is also a key that the server
  changed, the user is told and \<open>save\<close> rejects with the error of the update, the pattern
  unchanged and no retry made; otherwise every property the server changed has the
  reloaded pattern's value and every other property its own, the version is the reloaded
  pattern's, the pattern's entry of the pattern cache is cleared, and the outcome is that
  of saving again with one more attempt counted. If the reload rejects, \<open>save\<close> rejects
  with its error.
\<close>

theorem save_conflict_resolution:
  assumes orig: "originalBody p = Some orig"
    and body: "body = fst (prepBody e p w)"
    and upd: "savedObjectsClient_update e type_name (id' p) body (version p) (remote w)
                = (Inl err, r)"
    and conflict: "err_status err = Some 409"
    and budget: "saveAttempts < MAX_ATTEMPTS_TO_RESOLVE_CONFLICTS"
    and w2: "w2 = w\<lparr>remote := r,
               trace := trace w @ [IdsClearCache, Update type_name (id' p) body (version p)]\<rparr>"
  shows "(init n e False (new_IndexPattern (id' p)) w2 = Some (Resolved (), samePattern, w3) \<longrightarrow>
          local_changes body orig
             \<inter> server_changes (fst (prepBody e samePattern w3)) body orig \<noteq> {} \<longrightarrow>
          save (Suc n) e saveAttempts p w =
            Some (Rejected err, p, log (AddDanger unableWriteLabel) (log IdsClearCache w3)))
       \<and> (init n e False (new_IndexPattern (id' p)) w2 = Some (Resolved (), samePattern, w3) \<longrightarrow>
          local_changes body orig
             \<inter> server_changes (fst (prepBody e samePattern w3)) body orig = {} \<longrightarrow>
          (\<exists>p2. (\<forall>k. property p2 k =
                    (if k \<in> server_changes (fst (prepBody e samePattern w3)) body orig
                     then property samePattern k else property p k))
             \<and> version p2 = version samePattern \<and> id' p2 = id' p
             \<and> originalBody p2 = originalBody p \<and> watching p2 = watching p
             \<and> save (Suc n) e saveAttempts p w =
                 in_then (save n e (Suc saveAttempts) p2
                   (log (PatternCacheClear (id' p)) (log IdsClearCache w3)))))
       \<and> (init n e False (new_IndexPattern (id' p)) w2 = Some (Rejected err', samePattern, w3) \<longrightarrow>
          save (Suc n) e saveAttempts p w = Some (Rejected err', p, w3))
       \<and> (save (Suc n) e saveAttempts p w = Some (out, p', w') \<longrightarrow> truthy (id' p) \<longrightarrow>
          prefix (trace w2 @ [ConfigWatchAll, Get type_name (id' p)]) (trace w'))"
proof -
  let ?ock = "filter (\<lambda>k. at body k \<noteq> at orig k) (keys body)"
  have ock: "originalChangedKeys body (originalBody p) = Inr ?ock"
    using orig by (simp add: originalChangedKeys_def)
  have ur: "update_request e p body (log IdsClearCache w) = (Inl err, w2)"
    using update_request_eq [where w = "log IdsClearCache w" and e = e and p = p
        and body = body and res = "Inl err" and r = r] upd w2
    by (simp add: log_def)
  have pb: "prepBody e p w = (body, log IdsClearCache w)"
    using body by (simp add: prepBody_def)
  have step: "save (Suc n) e saveAttempts p w =
      (case init n e False (new_IndexPattern (id' p)) w2 of
         None \<Rightarrow> None
       | Some (Resolved u, samePattern, w3) \<Rightarrow>
           (case resolve_conflict e err ?ock body p samePattern w3 of
              (Inl err', w4) \<Rightarrow> Some (Rejected err', p, w4)
            | (Inr p', w4) \<Rightarrow> in_then (save n e (Suc saveAttempts) p' w4))
       | Some (Rejected err', samePattern, w3) \<Rightarrow> Some (Rejected err', p, w3)
       | Some (Thrown err', samePattern, w3) \<Rightarrow> Some (Rejected err', p, w3))"
    using conflict budget
    by (simp add: save_with_def pb ock ur init_unfold MAX_ATTEMPTS_TO_RESOLVE_CONFLICTS_def)
  let ?sk = "\<lambda>sp v. filter (\<lambda>k. at (fst (prepBody e sp v)) k \<noteq> at body k
                  \<and> at orig k \<noteq> at (fst (prepBody e sp v)) k) (keys (fst (prepBody e sp v)))"
  have rc0: "resolve_conflict e err ?ock body p sp v =
      (if set ?ock \<inter> set (?sk sp v) \<noteq> {}
       then (Inl err, log (AddDanger unableWriteLabel) (log IdsClearCache v))
       else (Inr (setVersion (fold (assignKey sp) (?sk sp v) p) (version sp)),
             log (PatternCacheClear (id' p)) (log IdsClearCache v)))" for sp v
    using orig
    by (simp add: resolve_conflict_def serverChangedKeys_def unresolvedCollision_iff
          split_beta prepBody_world)
  have sets: "set ?ock = local_changes body orig"
    "set (?sk sp v) = server_changes (fst (prepBody e sp v)) body orig" for sp v
    by (auto simp: local_changes_def server_changes_def)
  have rc: "resolve_conflict e err ?ock body p sp v =
      (if local_changes body orig \<inter> server_changes (fst (prepBody e sp v)) body orig \<noteq> {}
       then (Inl err, log (AddDanger unableWriteLabel) (log IdsClearCache v))
       else (Inr (setVersion (fold (assignKey sp) (?sk sp v) p) (version sp)),
             log (PatternCacheClear (id' p)) (log IdsClearCache v)))" for sp v
    unfolding sets [symmetric] by (rule rc0)
  show ?thesis
  proof (intro conjI impI)
    assume "init n e False (new_IndexPattern (id' p)) w2 = Some (Resolved (), samePattern, w3)"
      and "local_changes body orig
             \<inter> server_changes (fst (prepBody e samePattern w3)) body orig \<noteq> {}"
    then show "save (Suc n) e saveAttempts p w =
            Some (Rejected err, p, log (AddDanger unableWriteLabel) (log IdsClearCache w3))"
      by (subst step) (simp add: rc)
  next
    assume i: "init n e False (new_IndexPattern (id' p)) w2 = Some (Resolved (), samePattern, w3)"
      and none: "local_changes body orig
             \<inter> server_changes (fst (prepBody e samePattern w3)) body orig = {}"
    let ?p2 = "setVersion (fold (assignKey samePattern) (?sk samePattern w3) p)
                 (version samePattern)"
    have "save (Suc n) e saveAttempts p w =
        in_then (save n e (Suc saveAttempts) ?p2
          (log (PatternCacheClear (id' p)) (log IdsClearCache w3)))"
      using i none by (subst step) (simp add: rc)
    moreover have "\<forall>k. property ?p2 k =
        (if k \<in> server_changes (fst (prepBody e samePattern w3)) body orig
         then property samePattern k else property p k)"
    proof
      fix k
      have "property ?p2 k = property (fold (assignKey samePattern) (?sk samePattern w3) p) k"
        by (cases k) (simp_all add: setVersion_def)
      then show "property ?p2 k =
        (if k \<in> server_changes (fst (prepBody e samePattern w3)) body orig
         then property samePattern k else property p k)"
        by (simp only: property_fold_assignKey sets)
    qed
    moreover have "version ?p2 = version samePattern \<and> id' ?p2 = id' p
        \<and> originalBody ?p2 = originalBody p \<and> watching ?p2 = watching p"
      by (simp add: setVersion_def fold_assignKey_other)
    ultimately show "\<exists>p2. (\<forall>k. property p2 k =
                    (if k \<in> server_changes (fst (prepBody e samePattern w3)) body orig
                     then property samePattern k else property p k))
             \<and> version p2 = version samePattern \<and> id' p2 = id' p
             \<and> originalBody p2 = originalBody p \<and> watching p2 = watching p
             \<and> save (Suc n) e saveAttempts p w =
                 in_then (save n e (Suc saveAttempts) p2
                   (log (PatternCacheClear (id' p)) (log IdsClearCache w3)))"
      by blast
  next
    assume "init n e False (new_IndexPattern (id' p)) w2 = Some (Rejected err', samePattern, w3)"
    then show "save (Suc n) e saveAttempts p w = Some (Rejected err', p, w3)"
      by (subst step) simp
  next
    assume run: "save (Suc n) e saveAttempts p w = Some (out, p', w')" and id: "truthy (id' p)"
    from run obtain r3 sp v3 where
      i: "init n e False (new_IndexPattern (id' p)) w2 = Some (r3, sp, v3)"
      by (subst (asm) step) (auto split: option.splits)
    have "prefix (trace w2 @ [ConfigWatchAll] @ [Get type_name (id' p)]) (trace v3)"
      using init_with_trace [OF save_prefix_all, where force = False
          and p = "new_IndexPattern (id' p)" and w = w2 and r = r3 and p' = sp and w' = v3] i id
      by (simp add: init_unfold new_IndexPattern_simps)
    moreover have "prefix (trace v3) (trace w')"
    proof (cases r3)
      case (Resolved x)
      obtain res4 v4 where rc4: "resolve_conflict e err ?ock body p sp v3 = (res4, v4)"
        by (cases "resolve_conflict e err ?ock body p sp v3")
      have v4: "prefix (trace v3) (trace v4)" using resolve_conflict_prefix [OF rc4] .
      have "prefix (trace v4) (trace w')"
      proof (cases res4)
        case (Inl bad)
        with run i Resolved rc4 show ?thesis by (subst (asm) step) simp
      next
        case (Inr p2)
        with run i Resolved rc4
        have "in_then (save n e (Suc saveAttempts) p2 v4) = Some (out, p', w')"
          by (subst (asm) step) simp
        from in_then_Some [OF this] show ?thesis using save_prefix by blast
      qed
      with v4 show ?thesis by (rule prefix_order.trans)
    next
      case (Rejected x)
      with run i show ?thesis by (subst (asm) step) simp
    next
      case (Thrown x)
      with run i show ?thesis by (subst (asm) step) simp
    qed
    ultimately show "prefix (trace w2 @ [ConfigWatchAll, Get type_name (id' p)]) (trace w')"
      by (simp add: prefix_order.trans)
  qed
qed

subsection \<open>The title of a loaded pattern\<close>

lemma title_fold_assignKey:
  "title (fold (assignKey sp) ks p) = (if Title \<in> set ks then title sp else title p)"
  using property_fold_assignKey [of sp ks p Title] by (auto split: if_splits)

lemma resolve_conflict_Inr:
  "resolve_conflict e err ock body p sp w = (Inr p2, w') \<Longrightarrow>
     \<exists>ks. serverChangedKeys (fst (prepBody e sp w)) body (originalBody p) = Inr ks
        \<and> set ock \<inter> set ks = {}
        \<and> p2 = setVersion (fold (assignKey sp) ks p) (version sp)"
  by (auto simp: resolve_conflict_def unresolvedCollision_iff split_beta
      split: sum.splits if_splits)

lemma indexFields_with_inv:
  assumes sv: "\<forall>k p w r p' w'. sv k p w = Some (r, p', w') \<longrightarrow> I p \<longrightarrow> Q p'"
    and I_fields: "\<And>q fs. I (q\<lparr>fields' := fs\<rparr>) = I q"
    and Q_fields: "\<And>q fs. Q (q\<lparr>fields' := fs\<rparr>) = Q q"
    and IQ: "\<And>q. I q \<Longrightarrow> Q q"
    and run: "indexFields_with sv e p force w = Some (r, p', w')"
    and start: "I p"
  shows "Q p'"
proof (cases "\<not> truthy (id' p) \<or> \<not> (force \<or> isFieldRefreshRequired p)")
  case True
  with run start show ?thesis
    by (auto simp: indexFields_with_def initFields_def Let_def Q_fields IQ split: if_splits)
next
  case False
  then obtain r1 p1 w1 where rf: "refreshFields_with sv e p w = Some (r1, p1, w1)"
    and p': "p' = p1 \<or> p' = initFields e p1 None"
    using run by (auto simp: indexFields_with_def split: option.splits outcome.splits)
  have "Q p1"
  proof (cases "fetchFields e p w")
    case (fields res q w0)
    have q: "q = p \<or> (\<exists>fs. q = p\<lparr>fields' := fs\<rparr>)"
      using fields by (auto simp: fetchFields_def initFields_def Let_def split: prod.splits sum.splits)
    then have Iq: "I q" using start I_fields by auto
    show ?thesis
    proof (cases res)
      case (Inl err)
      with rf fields have "p1 = q"
        by (auto simp: refreshFields_with_def refreshFields_catch_def split: error.splits)
      with Iq IQ show ?thesis by simp
    next
      case (Inr u)
      with rf fields obtain r2 w2 where "sv 0 q w0 = Some (r2, p1, w2)"
        by (auto simp: refreshFields_with_def refreshFields_catch_def
            split: option.splits outcome.splits error.splits)
      with sv Iq show ?thesis by blast
    qed
  qed
  with p' show ?thesis by (auto simp: initFields_def Let_def Q_fields)
qed

lemma assign_source_other:
  "id' (assign_source e q src) = id' q" "originalBody (assign_source e q src) = originalBody q"
  "title (assign_source e q src) = (case map_of src Title of None \<Rightarrow> title q | Some s \<Rightarrow> Some s)"
  by (simp_all add: assign_source_def)

lemma default_title_other:
  "id' (default_title q) = id' q" "originalBody (default_title q) = originalBody q"
  "title (default_title q) = (if truthy (title q) then title q else id' q)"
  by (simp_all add: default_title_def)

text \<open>What \<open>init\<close> hands to \<open>indexFields\<close> when it resolves.\<close>

lemma init_with_Resolved:
  assumes run: "init_with sv e force p w = Some (Resolved u, p', w')" and id: "truthy (id' p)"
  shows "\<exists>resp r w3 w4 p2 body body'.
      savedObjectsClient_get e type_name (id' p) (remote w) = (Inr resp, r)
      \<and> body = fst (prepBody e ((p\<lparr>watching := True\<rparr>)\<lparr>version := so_version resp\<rparr>) w)
      \<and> indexFields_with sv e
           (default_title (assign_source e
              (p\<lparr>watching := True, version := so_version resp, originalBody := Some body\<rparr>)
              (attributes resp)))
           force w3 = Some (Resolved (), p2, w4)
      \<and> p' = p2\<lparr>originalBody := Some body'\<rparr>"
proof -
  obtain p1 w1 where wt: "watch p w = (p1, w1)" by (cases "watch p w")
  from watch_trace [OF wt] have p1: "p1 = p\<lparr>watching := True\<rparr>" and r1: "remote w1 = remote w"
    by simp_all
  obtain res r where g: "savedObjectsClient_get e type_name (id' p) (remote w) = (res, r)"
    by (cases "savedObjectsClient_get e type_name (id' p) (remote w)")
  then have gr: "get_request e p1 w1 = (res, log (Get type_name (id' p)) (w1\<lparr>remote := r\<rparr>))"
    using p1 r1 by (simp add: get_request_def)
  show ?thesis
  proof (cases res)
    case (Inl err)
    with run wt gr id p1 show ?thesis by (simp add: init_with_def)
  next
    case (Inr resp)
    let ?w2 = "log (Get type_name (id' p)) (w1\<lparr>remote := r\<rparr>)"
    let ?q = "setVersion p1 (so_version resp)"
    have body: "fst (prepBody e ?q ?w2) = fst (prepBody e ?q w)"
      by (simp add: prepBody_def)
    from run wt gr id p1 Inr
    obtain p2 w4 where
      "updateFromElasticSearch_with sv e (?q\<lparr>originalBody := Some (fst (prepBody e ?q ?w2))\<rparr>)
          \<lparr>source = attributes resp, found = truthy (so_version resp)\<rparr> force
          (snd (prepBody e ?q ?w2)) = Some (Resolved (), p2, w4)"
      and p': "p' = p2\<lparr>originalBody := Some (fst (prepBody e p2 w4))\<rparr>"
      by (auto simp: init_with_def split_beta split: option.splits outcome.splits)
    then have "indexFields_with sv e
           (default_title (assign_source e
              (?q\<lparr>originalBody := Some (fst (prepBody e ?q w))\<rparr>) (attributes resp)))
           force (snd (prepBody e ?q ?w2)) = Some (Resolved (), p2, w4)"
      by (auto simp: updateFromElasticSearch_with_def body split: if_splits)
    with g Inr p' p1 show ?thesis
      by (auto simp: setVersion_def)
  qed
qed

lemma init_with_title_truthy:
  assumes sv: "\<forall>k p w r p' w'. sv k p w = Some (r, p', w') \<longrightarrow>
                 truthy (id' p) \<and> truthy (title p) \<longrightarrow> truthy (title p')"
    and run: "init_with sv e force p w = Some (Resolved u, p', w')" and id: "truthy (id' p)"
  shows "truthy (title p')"
proof -
  from init_with_Resolved [OF run id] obtain resp r w3 w4 p2 body body' where
    "savedObjectsClient_get e type_name (id' p) (remote w) = (Inr resp, r)"
    and ix: "indexFields_with sv e
           (default_title (assign_source e
              (p\<lparr>watching := True, version := so_version resp, originalBody := Some body\<rparr>)
              (attributes resp)))
           force w3 = Some (Resolved (), p2, w4)"
    and p': "p' = p2\<lparr>originalBody := Some body'\<rparr>"
    by blast
  have "truthy (title p2)"
    by (rule indexFields_with_inv [where I = "\<lambda>q. truthy (id' q) \<and> truthy (title q)"
          and Q = "\<lambda>q. truthy (title q)", OF sv _ _ _ ix])
       (use id in \<open>simp_all add: default_title_other assign_source_other\<close>)
  with p' show ?thesis by simp
qed

lemma save_with_cases:
  assumes run: "save_with sv e k p w = Some (r, p', w')"
  shows "p' = p \<or> (\<exists>i v. p' = setVersion (setId p i) v)
       \<or> (\<exists>u sp w2 w3 ock err p2 w4 r'.
            originalChangedKeys (fst (prepBody e p w)) (originalBody p) = Inr ock
            \<and> init_with sv e False (new_IndexPattern (id' p)) w2 = Some (Resolved u, sp, w3)
            \<and> resolve_conflict e err ock (fst (prepBody e p w)) p sp w3 = (Inr p2, w4)
            \<and> sv (Suc k) p2 w4 = Some (r', p', w'))"
proof (cases "prepBody e p w")
  case (Pair body w1)
  show ?thesis
  proof (cases "originalChangedKeys body (originalBody p)")
    case (Inl thrown)
    with run Pair show ?thesis by (simp add: save_with_def)
  next
    case (Inr ock)
    obtain res w2 where u: "update_request e p body w1 = (res, w2)"
      by (cases "update_request e p body w1")
    show ?thesis
    proof (cases res)
      case ok: (Inr iv)
      with run Pair Inr u show ?thesis by (auto simp: save_with_def split: prod.splits)
    next
      case (Inl err)
      show ?thesis
      proof (cases "err_status err = Some 409 \<and> k < MAX_ATTEMPTS_TO_RESOLVE_CONFLICTS")
        case False
        with run Pair Inr u Inl show ?thesis by (auto simp: save_with_def)
      next
        case True
        show ?thesis
        proof (cases "init_with sv e False (new_IndexPattern (id' p)) w2")
          case None
          with run Pair Inr u Inl True show ?thesis by (simp add: save_with_def)
        next
          case (Some s)
          obtain r3 sp w3 where s: "s = (r3, sp, w3)" by (cases s)
          show ?thesis
          proof (cases r3)
            case (Resolved x)
            obtain res4 w4 where rc: "resolve_conflict e err ock body p sp w3 = (res4, w4)"
              by (cases "resolve_conflict e err ock body p sp w3")
            show ?thesis
            proof (cases res4)
              case bad: (Inl err')
              with run Pair Inr u Inl True Some s Resolved rc show ?thesis
                by (simp add: save_with_def)
            next
              case again: (Inr p2)
              with run Pair Inr u Inl True Some s Resolved rc
              have "in_then (sv (Suc k) p2 w4) = Some (r, p', w')"
                by (simp add: save_with_def)
              from in_then_Some [OF this] obtain r' where "sv (Suc k) p2 w4 = Some (r', p', w')"
                by blast
              with Pair Inr Some s Resolved rc again show ?thesis by auto
            qed
          next
            case (Rejected err')
            with run Pair Inr u Inl True Some s show ?thesis by (simp add: save_with_def)
          next
            case (Thrown err')
            with run Pair Inr u Inl True Some s show ?thesis by (simp add: save_with_def)
          qed
        qed
      qed
    qed
  qed
qed

lemma save_with_title_truthy:
  assumes sv: "\<forall>k p w r p' w'. sv k p w = Some (r, p', w') \<longrightarrow>
                 truthy (id' p) \<and> truthy (title p) \<longrightarrow> truthy (title p')"
    and run: "save_with sv e k p w = Some (r, p', w')"
    and id: "truthy (id' p)" and t: "truthy (title p)"
  shows "truthy (title p')"
proof (cases "p' = p \<or> (\<exists>i v. p' = setVersion (setId p i) v)")
  case True
  with t show ?thesis by (auto simp: setVersion_def setId_def)
next
  case False
  with save_with_cases [OF run] obtain u sp w2 w3 ock err p2 w4 r' where
    i: "init_with sv e False (new_IndexPattern (id' p)) w2 = Some (Resolved u, sp, w3)"
    and rc: "resolve_conflict e err ock (fst (prepBody e p w)) p sp w3 = (Inr p2, w4)"
    and again: "sv (Suc k) p2 w4 = Some (r', p', w')"
    by blast
  have "truthy (title sp)"
    using init_with_title_truthy [OF sv i] id by (simp add: new_IndexPattern_simps)
  moreover from resolve_conflict_Inr [OF rc] obtain ks where
    "p2 = setVersion (fold (assignKey sp) ks p) (version sp)" by blast
  ultimately have "truthy (title p2)" "truthy (id' p2)"
    using t id by (simp_all add: setVersion_def title_fold_assignKey fold_assignKey_other)
  with sv again show ?thesis by blast
qed

lemma save_title_truthy:
  "\<forall>k p w r p' w'. save n e k p w = Some (r, p', w') \<longrightarrow>
     truthy (id' p) \<and> truthy (title p) \<longrightarrow> truthy (title p')"
proof (induction n)
  case 0
  show ?case by simp
next
  case (Suc n)
  show ?case
    using save_with_title_truthy [OF Suc.IH] by (auto simp: save_Suc)
qed

lemma prepBody_Title:
  "Title \<in> set (keys (fst (prepBody e p w))) = (title p \<noteq> None)"
  "at (fst (prepBody e p w)) Title = title p"
  by (auto simp: keys_prepBody set_mapping_keys at_prepBody split: option.splits)

lemma save_with_title_pinned:
  assumes sv: "\<forall>k p w r p' w' orig. sv k p w = Some (r, p', w') \<longrightarrow>
                 originalBody p = Some orig \<and> title p \<noteq> None \<and> at orig Title \<noteq> title p \<longrightarrow>
                 title p' = title p"
    and run: "save_with sv e k p w = Some (r, p', w')"
    and orig: "originalBody p = Some orig" and t: "title p \<noteq> None"
    and changed: "at orig Title \<noteq> title p"
  shows "title p' = title p"
proof (cases "p' = p \<or> (\<exists>i v. p' = setVersion (setId p i) v)")
  case True
  then show ?thesis by (auto simp: setVersion_def setId_def)
next
  case False
  with save_with_cases [OF run] obtain u sp w2 w3 ock err p2 w4 r' where
    ock: "originalChangedKeys (fst (prepBody e p w)) (originalBody p) = Inr ock"
    and rc: "resolve_conflict e err ock (fst (prepBody e p w)) p sp w3 = (Inr p2, w4)"
    and again: "sv (Suc k) p2 w4 = Some (r', p', w')"
    by blast
  from ock orig have "set ock = local_changes (fst (prepBody e p w)) orig"
    by (simp add: originalChangedKeys_set)
  with t changed have local: "Title \<in> set ock"
    by (auto simp: local_changes_def prepBody_Title)
  from resolve_conflict_Inr [OF rc] obtain ks where
    ks: "set ock \<inter> set ks = {}"
    and p2: "p2 = setVersion (fold (assignKey sp) ks p) (version sp)" by blast
  from local ks have "Title \<notin> set ks" by auto
  with p2 have "title p2 = title p" "originalBody p2 = originalBody p"
    by (simp_all add: setVersion_def title_fold_assignKey fold_assignKey_other)
  with sv again orig t changed show ?thesis by metis
qed

lemma save_title_pinned:
  "\<forall>k p w r p' w' orig. save n e k p w = Some (r, p', w') \<longrightarrow>
     originalBody p = Some orig \<and> title p \<noteq> None \<and> at orig Title \<noteq> title p \<longrightarrow>
     title p' = title p"
proof (induction n)
  case 0
  show ?case by simp
next
  case (Suc n)
  show ?case
    using save_with_title_pinned [OF Suc.IH] by (auto simp: save_Suc)
qed

lemma init_with_title_id:
  assumes sv: "\<forall>k p w r p' w' orig. sv k p w = Some (r, p', w') \<longrightarrow>
                 originalBody p = Some orig \<and> title p \<noteq> None \<and> at orig Title \<noteq> title p \<longrightarrow>
                 title p' = title p"
    and run: "init_with sv e force p w = Some (Resolved u, p', w')"
    and id: "truthy (id' p)" and untitled: "\<not> truthy (title p)"
    and get: "savedObjectsClient_get e type_name (id' p) (remote w) = (Inr resp, r)"
    and lacks: "\<not> truthy (map_of (attributes resp) Title)"
  shows "title p' = id' p"
proof -
  from init_with_Resolved [OF run id] get obtain w3 w4 p2 body body' where
    body: "body = fst (prepBody e ((p\<lparr>watching := True\<rparr>)\<lparr>version := so_version resp\<rparr>) w)"
    and ix: "indexFields_with sv e
           (default_title (assign_source e
              (p\<lparr>watching := True, version := so_version resp, originalBody := Some body\<rparr>)
              (attributes resp)))
           force w3 = Some (Resolved (), p2, w4)"
    and p': "p' = p2\<lparr>originalBody := Some body'\<rparr>"
    by auto
  let ?p0 = "default_title (assign_source e
              (p\<lparr>watching := True, version := so_version resp, originalBody := Some body\<rparr>)
              (attributes resp))"
  have at_body: "at body Title = title p"
    by (simp add: body prepBody_Title)
  have start: "title ?p0 = id' p \<and> originalBody ?p0 = Some body"
    using untitled lacks
    by (auto simp: default_title_other assign_source_other split: option.splits)
  have differ: "at body Title \<noteq> id' p" "id' p \<noteq> None"
    using id untitled at_body by (auto simp: truthy_def)
  have kept: "\<forall>k q v r q' v'. sv k q v = Some (r, q', v') \<longrightarrow>
      (title q = id' p \<and> originalBody q = Some body) \<longrightarrow> title q' = id' p"
    using sv differ by metis
  have "title p2 = id' p"
    by (rule indexFields_with_inv [where I = "\<lambda>q. title q = id' p \<and> originalBody q = Some body"
          and Q = "\<lambda>q. title q = id' p", OF kept _ _ _ ix start]) simp_all
  with p' show ?thesis by simp
qed

text \<open>
  C10, as amended. After an \<open>init\<close> that resolved, of a pattern with an id, the title of
  the pattern is not empty; and if the pattern had no title before and the attributes of
  the stored document have none (or an empty one), its title is the id it was loaded by.
\<close>

theorem init_title_defaults_to_id:
  assumes "init n e force p w = Some (Resolved (), p', w')" and "truthy (id' p)"
  shows "truthy (title p')
       \<and> (\<not> truthy (title p) \<longrightarrow>
          savedObjectsClient_get e type_name (id' p) (remote w) = (Inr resp, r) \<longrightarrow>
          \<not> truthy (map_of (attributes resp) Title) \<longrightarrow>
          title p' = id' p)"
  using assms init_with_title_truthy [OF save_title_truthy, where p = p and p' = p']
    init_with_title_id [OF save_title_pinned, where p = p and p' = p']
  by (auto simp: init_unfold)

subsection \<open>The version of a pattern\<close>








subsection \<open>Runs against the store with one document\<close>

theorem addScriptedField_duplicate_or_append_witness:
  "addScriptedField 0 test_services ''double'' (Some ''doc.bytes * 3'') None None
     scripted_pattern test_world = Some (Inl (DuplicateField ''double''), scripted_pattern, test_world)
   \<and> getNonScriptedFields scripted_pattern = [capable_field ''bytes'']"
  using addScriptedField_duplicate_or_append [where p = scripted_pattern and nm = "''double''"
      and fs = "[capable_field ''bytes'',
        (capable_field ''double'')\<lparr>scripted := Some True, script := Some ''doc.bytes * 2''\<rparr>]"
      and n = 0 and e = test_services and scr = "Some ''doc.bytes * 3''" and ty = None
      and lng = None and w = test_world]
  by (simp add: scripted_pattern_def loaded_pattern_def capable_field_def)

lemma test_update:
  "savedObjectsClient_update test_services t i b v st =
     (if v = Some (stored_version st)
      then (Inr (i, Some (stored_version st @ ''+'')),
            st\<lparr>stored_version := stored_version st @ ''+'',
               stored_attributes := List.map_filter (\<lambda>(k, x). map_option (Pair k) x) b\<rparr>)
      else (Inl (RequestError (Some 409) ''version conflict''), st))"
  by (simp add: test_services_def)

lemma loaded_pattern_simps:
  "id' loaded_pattern = Some ''logs''" "version loaded_pattern = Some ''v1''"
  "originalBody loaded_pattern =
     Some [(Title, Some ''logs-*''), (Fields, Some ''bytes''), (FieldFormatMap, None)]"
  by (simp_all add: loaded_pattern_def)

lemma stale_pattern_simps:
  "id' stale_pattern = Some ''logs''" "version stale_pattern = Some ''v0''"
  "originalBody stale_pattern =
     Some [(Title, Some ''logs-*''), (Fields, Some ''bytes''), (FieldFormatMap, None)]"
  by (simp_all add: stale_pattern_def loaded_pattern_def)

lemma test_world_simps:
  "remote test_world =
     \<lparr>stored_version = ''v1'', stored_attributes = [(Title, ''logs-*''), (Fields, ''bytes'')]\<rparr>"
  "trace test_world = []"
  by (simp_all add: test_world_def)

lemma body_loaded:
  "fst (prepBody test_services loaded_pattern w) =
     [(Title, Some ''logs-*''), (Fields, Some ''bytes''), (FieldFormatMap, None)]"
  by code_simp

lemma body_stale:
  "fst (prepBody test_services stale_pattern w) =
     [(Title, Some ''logs-*''), (TimeFieldName, Some ''@timestamp''), (Fields, Some ''bytes''),
      (FieldFormatMap, None)]"
  by code_simp



theorem save_retry_budget_witness:
  "save 1 test_services 3 stale_pattern test_world =
     Some (Rejected (RequestError (Some 409) ''version conflict''), stale_pattern,
       test_world\<lparr>remote := remote test_world,
         trace := [IdsClearCache,
           Update type_name (Some ''logs'')
             [(Title, Some ''logs-*''), (TimeFieldName, Some ''@timestamp''),
              (Fields, Some ''bytes''), (FieldFormatMap, None)]
             (Some ''v0'')]\<rparr>)"
proof -
  have ob: "originalBody stale_pattern =
      Some [(Title, Some ''logs-*''), (Fields, Some ''bytes''), (FieldFormatMap, None)]"
    by (simp add: stale_pattern_simps)
  have upd: "savedObjectsClient_update test_services type_name (id' stale_pattern)
      (fst (prepBody test_services stale_pattern test_world)) (version stale_pattern)
      (remote test_world) =
      (Inl (RequestError (Some 409) ''version conflict''), remote test_world)"
    by (simp add: test_update stale_pattern_simps test_world_simps)
  show ?thesis
    using save_retry_budget [where n = 0 and e = test_services and saveAttempts = 3
        and w = test_world and p = stale_pattern, THEN conjunct2, THEN conjunct1, rule_format,
        OF ob upd]
    by (simp add: body_stale stale_pattern_simps test_world_simps
          MAX_ATTEMPTS_TO_RESOLVE_CONFLICTS_def)
qed

text \<open>
  Against a store that answers every update with 409, a \<open>save\<close> sends four updates, the
  first and three retries, and rejects.
\<close>

lemma save_gives_up_after_three_retries:
  "map_option (\<lambda>(out, p, w). (out, length (filter (\<lambda>ev. case ev of Update t i b v \<Rightarrow> True | _ \<Rightarrow> False) (trace w))))
     (save 4 (test_services\<lparr>savedObjectsClient_update :=
        \<lambda>t i b v st. (Inl (RequestError (Some 409) ''version conflict''), st)\<rparr>) 0 loaded_pattern test_world)
   = Some (Rejected (RequestError (Some 409) ''version conflict''), 4)"
  by code_simp

lemma renamed_pattern_simps:
  "id' renamed_pattern = Some ''logs''" "version renamed_pattern = Some ''v0''"
  "originalBody renamed_pattern =
     Some [(Title, Some ''logs-*''), (Fields, Some ''bytes''), (FieldFormatMap, None)]"
  by (simp_all add: renamed_pattern_def loaded_pattern_def)

lemma body_renamed:
  "fst (prepBody test_services renamed_pattern w) =
     [(Title, Some ''apache-*''), (Fields, Some ''bytes''), (FieldFormatMap, None)]"
  by code_simp

lemma body_reloaded:
  "fst (prepBody test_services reloaded_pattern w) =
     [(Title, Some ''metrics-*''), (Fields, Some ''bytes''), (FieldFormatMap, None)]"
  by code_simp

theorem save_conflict_resolution_witness:
  "save 1 test_services 0 renamed_pattern retitled_world =
     Some (Rejected conflict_error, renamed_pattern,
       log (AddDanger unableWriteLabel) (log IdsClearCache
         (retitled_world\<lparr>trace :=
            [IdsClearCache,
             Update type_name (Some ''logs'')
               [(Title, Some ''apache-*''), (Fields, Some ''bytes''), (FieldFormatMap, None)]
               (Some ''v0''),
             ConfigWatchAll, Get type_name (Some ''logs''), IdsClearCache, IdsClearCache]\<rparr>)))"
proof -
  let ?body = "[(Title, Some ''apache-*''), (Fields, Some ''bytes''), (FieldFormatMap, None)]"
  let ?orig = "[(Title, Some ''logs-*''), (Fields, Some ''bytes''), (FieldFormatMap, None)]"
  let ?w2 = "retitled_world\<lparr>remote := remote retitled_world,
      trace := trace retitled_world
        @ [IdsClearCache, Update type_name (id' renamed_pattern) ?body (version renamed_pattern)]\<rparr>"
  let ?w3 = "retitled_world\<lparr>trace :=
            [IdsClearCache, Update type_name (Some ''logs'') ?body (Some ''v0''),
             ConfigWatchAll, Get type_name (Some ''logs''), IdsClearCache, IdsClearCache]\<rparr>"
  have ob: "originalBody renamed_pattern = Some ?orig"
    by (simp add: renamed_pattern_simps)
  have body: "?body = fst (prepBody test_services renamed_pattern retitled_world)"
    by (simp add: body_renamed)
  have upd: "savedObjectsClient_update test_services type_name (id' renamed_pattern) ?body
      (version renamed_pattern) (remote retitled_world) = (Inl conflict_error, remote retitled_world)"
    by (simp add: test_update renamed_pattern_simps retitled_world_def conflict_error_def)
  have conflict: "err_status conflict_error = Some 409"
    by (simp add: conflict_error_def)
  have reload: "init 0 test_services False (new_IndexPattern (id' renamed_pattern)) ?w2 =
      Some (Resolved (), reloaded_pattern, ?w3)"
    by code_simp
  have collide: "local_changes ?body ?orig
      \<inter> server_changes (fst (prepBody test_services reloaded_pattern ?w3)) ?body ?orig \<noteq> {}"
    by (simp add: body_reloaded local_changes_def server_changes_def keys_def at_def)
  show ?thesis
    using save_conflict_resolution [OF ob body upd conflict _ refl,
        where saveAttempts = 0 and n = 0, THEN conjunct1, rule_format, OF _ reload collide]
    by (simp add: MAX_ATTEMPTS_TO_RESOLVE_CONFLICTS_def)
qed

theorem init_title_defaults_to_id_witness:
  "init 0 test_services False (new_IndexPattern (Some ''logs'')) untitled_world =
     Some (Resolved (), untitled_pattern,
           untitled_world\<lparr>trace := [ConfigWatchAll, Get type_name (Some ''logs''),
                                    IdsClearCache, IdsClearCache]\<rparr>)
   \<and> truthy (title untitled_pattern)
   \<and> title untitled_pattern = Some ''logs''"
proof -
  have run: "init 0 test_services False (new_IndexPattern (Some ''logs'')) untitled_world =
     Some (Resolved (), untitled_pattern,
           untitled_world\<lparr>trace := [ConfigWatchAll, Get type_name (Some ''logs''),
                                    IdsClearCache, IdsClearCache]\<rparr>)"
    by code_simp
  have id: "truthy (id' (new_IndexPattern (Some ''logs'')))"
    and untitled: "\<not> truthy (title (new_IndexPattern (Some ''logs'')))"
    by (simp_all add: truthy_def new_IndexPattern_simps)
  have get: "savedObjectsClient_get test_services type_name
      (id' (new_IndexPattern (Some ''logs''))) (remote untitled_world) =
      (Inr \<lparr>so_id = Some ''logs'', so_type = type_name, so_version = Some ''v1'',
             attributes = [(Fields, ''bytes'')]\<rparr>, remote untitled_world)"
    by (simp add: test_get new_IndexPattern_simps untitled_world_def)
  have lacks: "\<not> truthy (map_of (attributes \<lparr>so_id = Some ''logs'', so_type = type_name,
      so_version = Some ''v1'', attributes = [(Fields, ''bytes'')]\<rparr>) Title)"
    by (simp add: truthy_def)
  show ?thesis
    using init_title_defaults_to_id [OF run id, THEN conjunct1]
      init_title_defaults_to_id [OF run id, THEN conjunct2, rule_format, OF untitled get lacks]
      run
    by (simp add: new_IndexPattern_simps)
qed

text \<open>
  C10 as stated fails for a pattern that has a title when \<open>init\<close> is called: the document
  has no title, \<open>init\<close> resolves, and the pattern keeps its title, which is not its id.
\<close>

theorem init_keeps_title_counterexample:
  "map_of (stored_attributes (remote untitled_world)) Title = None
   \<and> init 0 test_services False renamed_pattern untitled_world =
       Some (Resolved (), kept_title_pattern,
             untitled_world\<lparr>trace := [Get type_name (Some ''logs''),
                                      IdsClearCache, IdsClearCache]\<rparr>)
   \<and> title kept_title_pattern \<noteq> id' kept_title_pattern"
  by code_simp

end
